theory Spec2Isabelle
  imports Complex_Main "HOL-Library.AList" "HOL-Library.Log_Nat"
begin

section \<open>JavaScript numbers and values\<close>

text \<open>
  A JavaScript number is an IEEE 754 double: a finite value, one of the two infinities, or
  NaN. A finite double is modelled by the real number it denotes (the sign of zero is not
  modelled). \<open>fl\<close> rounds a real to the nearest double, a tie to the one with the even
  significand: with \<open>2^e \<le> |x| < 2^(e+1)\<close> (\<open>e\<close> not below -1022, where the subnormal range
  starts) the doubles around \<open>x\<close> are the multiples of \<open>2^(e-52)\<close>, and a result of
  \<open>2^1024\<close> or more is an infinity.
\<close>

datatype jsnum = Fin real | PInf | NInf | NaN

definition expo :: "real \<Rightarrow> int" where
  "expo a =
     (if 1 \<le> a then int (floorlog 2 (nat \<lfloor>a\<rfloor>)) - 1
      else - int (floorlog 2 (nat \<lceil>1 / a\<rceil> - 1)))"

definition pow2 :: "int \<Rightarrow> real" where
  "pow2 e = (if 0 \<le> e then 2 ^ nat e else 1 / 2 ^ nat (- e))"

definition roundEven :: "real \<Rightarrow> int" where
  "roundEven y =
     (let f = \<lfloor>y\<rfloor>; r = y - of_int f
      in if r < 1 / 2 then f else if 1 / 2 < r then f + 1 else if even f then f else f + 1)"

definition fl :: "real \<Rightarrow> jsnum" where
  "fl x =
     (if x = 0 then Fin 0
      else (let a = \<bar>x\<bar>;
                e = max (expo a) (- 1022);
                u = pow2 (e - 52);
                r = of_int (roundEven (a / u)) * u
            in if pow2 1024 \<le> r then (if x < 0 then NInf else PInf)
               else Fin (if x < 0 then - r else r)))"

text \<open>A real that is a double, and a number whose finite value is one.\<close>

definition isDouble :: "real \<Rightarrow> bool" where
  "isDouble x = (fl x = Fin x)"

definition numOK :: "jsnum \<Rightarrow> bool" where
  "numOK n = (case n of Fin x \<Rightarrow> isDouble x | _ \<Rightarrow> True)"

text \<open>
  Arithmetic: the exact result, rounded; the special values follow the rules of the
  language. A division by zero takes the zero as positive.
\<close>

fun js_neg :: "jsnum \<Rightarrow> jsnum" where
  "js_neg (Fin a) = Fin (- a)"
| "js_neg PInf = NInf"
| "js_neg NInf = PInf"
| "js_neg NaN = NaN"

fun js_add :: "jsnum \<Rightarrow> jsnum \<Rightarrow> jsnum" where
  "js_add NaN _ = NaN"
| "js_add _ NaN = NaN"
| "js_add (Fin a) (Fin b) = fl (a + b)"
| "js_add PInf NInf = NaN"
| "js_add NInf PInf = NaN"
| "js_add PInf _ = PInf"
| "js_add _ PInf = PInf"
| "js_add NInf _ = NInf"
| "js_add _ NInf = NInf"

definition js_sub :: "jsnum \<Rightarrow> jsnum \<Rightarrow> jsnum" where
  "js_sub a b = js_add a (js_neg b)"

text \<open>The sign of a number that is not NaN: -1, 0 or 1.\<close>

fun js_sign :: "jsnum \<Rightarrow> int" where
  "js_sign (Fin a) = (if a < 0 then - 1 else if a = 0 then 0 else 1)"
| "js_sign PInf = 1"
| "js_sign NInf = - 1"
| "js_sign NaN = 0"

definition js_inf :: "int \<Rightarrow> jsnum" where
  "js_inf s = (if s < 0 then NInf else PInf)"

fun js_mul :: "jsnum \<Rightarrow> jsnum \<Rightarrow> jsnum" where
  "js_mul NaN _ = NaN"
| "js_mul _ NaN = NaN"
| "js_mul (Fin a) (Fin b) = fl (a * b)"
| "js_mul x y =
     (if js_sign x = 0 \<or> js_sign y = 0 then NaN else js_inf (js_sign x * js_sign y))"

fun js_div :: "jsnum \<Rightarrow> jsnum \<Rightarrow> jsnum" where
  "js_div NaN _ = NaN"
| "js_div _ NaN = NaN"
| "js_div (Fin a) (Fin b) =
     (if b = 0 then (if a = 0 then NaN else if a < 0 then NInf else PInf) else fl (a / b))"
| "js_div (Fin a) _ = Fin 0"
| "js_div x (Fin b) = js_inf (js_sign x * (if b < 0 then - 1 else 1))"
| "js_div _ _ = NaN"

fun js_abs :: "jsnum \<Rightarrow> jsnum" where
  "js_abs (Fin a) = Fin \<bar>a\<bar>"
| "js_abs PInf = PInf"
| "js_abs NInf = PInf"
| "js_abs NaN = NaN"

text \<open>\<open>Math.sqrt\<close>, taken as the correctly rounded square root.\<close>

fun js_sqrt :: "jsnum \<Rightarrow> jsnum" where
  "js_sqrt (Fin a) = (if a < 0 then NaN else fl (sqrt a))"
| "js_sqrt PInf = PInf"
| "js_sqrt NInf = NaN"
| "js_sqrt NaN = NaN"

text \<open>Comparisons: every comparison with NaN is false.\<close>

fun js_lt :: "jsnum \<Rightarrow> jsnum \<Rightarrow> bool" where
  "js_lt NaN _ = False"
| "js_lt _ NaN = False"
| "js_lt (Fin a) (Fin b) = (a < b)"
| "js_lt PInf _ = False"
| "js_lt _ NInf = False"
| "js_lt _ PInf = True"
| "js_lt NInf _ = True"

fun js_le :: "jsnum \<Rightarrow> jsnum \<Rightarrow> bool" where
  "js_le NaN _ = False"
| "js_le _ NaN = False"
| "js_le (Fin a) (Fin b) = (a \<le> b)"
| "js_le NInf _ = True"
| "js_le _ PInf = True"
| "js_le PInf _ = False"
| "js_le _ NInf = False"

definition js_gt :: "jsnum \<Rightarrow> jsnum \<Rightarrow> bool" where
  "js_gt a b = js_lt b a"

definition js_ge :: "jsnum \<Rightarrow> jsnum \<Rightarrow> bool" where
  "js_ge a b = js_le b a"

text \<open>
  \<open>Number(x.toFixed(d))\<close>. \<open>toFixed\<close> prints the decimal with \<open>d\<close> fraction digits nearest
  to the exact value of the double \<open>x\<close>, the larger one in a tie on the magnitude (the sign
  is treated separately), and \<open>Number\<close> reads the decimal back as the nearest double. From
  10^21 on \<open>toFixed\<close> prints the number as \<open>String\<close> does, which reads back as \<open>x\<close>; so do
  NaN and the infinities.
\<close>

definition roundFixed :: "nat \<Rightarrow> real \<Rightarrow> real" where
  "roundFixed d x = sgn x * of_int \<lfloor>\<bar>x\<bar> * 10 ^ d + 1 / 2\<rfloor> / 10 ^ d"

fun toFixedNumber :: "nat \<Rightarrow> jsnum \<Rightarrow> jsnum" where
  "toFixedNumber d (Fin x) = (if \<bar>x\<bar> < 10 ^ 21 then fl (roundFixed d x) else Fin x)"
| "toFixedNumber d v = v"

text \<open>
  Strings are lists of characters; a character stands for the UTF-16 code unit of the same
  number, so the strings of the model are those whose code units are below 256.
\<close>

definition digitChar :: "nat \<Rightarrow> char" where
  "digitChar d = ''0123456789'' ! (d mod 10)"

definition isDigit :: "char \<Rightarrow> bool" where
  "isDigit c = (c \<in> set ''0123456789'')"

definition digitVal :: "char \<Rightarrow> nat" where
  "digitVal c = length (takeWhile (\<lambda>d. d \<noteq> c) ''0123456789'')"

definition natOfDigits :: "string \<Rightarrow> nat" where
  "natOfDigits ds = foldl (\<lambda>a c. 10 * a + digitVal c) 0 ds"

text \<open>
  A value read from a row: \<open>undefined\<close>, \<open>null\<close>, a number, a string, or a member that a
  plain object inherits from \<open>Object.prototype\<close> (a built-in function; for \<open>__proto__\<close> the
  prototype object itself). An inherited member is an object: it is truthy, and it is
  neither null nor undefined nor a number nor a string.

  A row is a plain object with string keys. It is kept as the association list of its own
  properties in the order \<open>Object.keys\<close> enumerates them: the keys that are array indices
  first, in ascending numeric order, then the other keys in the order of their creation.
\<close>

datatype jsval = JUndef | JNull | JNumber jsnum | JStr string | JBuiltin string

type_synonym row = "(string \<times> jsval) list"

type_synonym table = "row list"

definition Object_keys :: "(string \<times> 'v) list \<Rightarrow> string list" where
  "Object_keys r = map fst r"

text \<open>The names of the members of \<open>Object.prototype\<close>.\<close>

definition protoMembers :: "string list" where
  "protoMembers =
     [''constructor'', ''__defineGetter__'', ''__defineSetter__'', ''hasOwnProperty'',
      ''__lookupGetter__'', ''__lookupSetter__'', ''isPrototypeOf'', ''propertyIsEnumerable'',
      ''toString'', ''valueOf'', ''__proto__'', ''toLocaleString'']"

definition inherited :: "string \<Rightarrow> bool" where
  "inherited k = (k \<in> set protoMembers)"

text \<open>\<open>row[k]\<close>: the own property, else the inherited member, else \<open>undefined\<close>.\<close>

definition getv :: "row \<Rightarrow> string \<Rightarrow> jsval" where
  "getv r k =
     (case map_of r k of
        Some v \<Rightarrow> v
      | None \<Rightarrow> if inherited k then JBuiltin k else JUndef)"

text \<open>Reading \<open>m[k]\<close> of a \<open>Record<string, boolean>\<close> in a condition: the own flag, else an
  inherited member (truthy), else \<open>undefined\<close> (falsy).\<close>

definition flag :: "(string \<times> bool) list \<Rightarrow> string \<Rightarrow> bool" where
  "flag m k = (case map_of m k of Some b \<Rightarrow> b | None \<Rightarrow> inherited k)"

text \<open>
  An array index is the canonical decimal of an integer from 0 to 2^32 - 2.
\<close>

definition isIndexKey :: "string \<Rightarrow> bool" where
  "isIndexKey k =
     (k \<noteq> [] \<and> list_all isDigit k \<and> (k = ''0'' \<or> hd k \<noteq> CHR ''0'') \<and>
      natOfDigits k < 2 ^ 32 - 1)"

text \<open>
  The assignment \<open>obj[k] = v\<close> on a plain object. An own property keeps its place and takes
  the value. Otherwise \<open>__proto__\<close> is the accessor inherited from \<open>Object.prototype\<close>: its
  setter creates no own property (it can replace the prototype of \<open>obj\<close>, which none of
  the functions below reads afterwards). Any other key becomes a new own property: an
  array index goes to its place among the array indices, another key to the end.
\<close>

definition protoKey :: string where
  "protoKey = ''__proto__''"

definition setProp :: "string \<Rightarrow> 'v \<Rightarrow> (string \<times> 'v) list \<Rightarrow> (string \<times> 'v) list" where
  "setProp k v r =
     (if k \<in> set (map fst r) then AList.update k v r
      else if k = protoKey then r
      else if isIndexKey k
      then (let before = takeWhile (\<lambda>kv. isIndexKey (fst kv) \<and> natOfDigits (fst kv) < natOfDigits k) r
            in before @ (k, v) # drop (length before) r)
      else r @ [(k, v)])"

text \<open>The key lists of objects: distinct keys, array indices first and ascending.\<close>

definition jsOrdered :: "string list \<Rightarrow> bool" where
  "jsOrdered ks =
     (distinct ks \<and>
      sorted_wrt (\<lambda>a b. a < b) (map natOfDigits (takeWhile isIndexKey ks)) \<and>
      list_all (\<lambda>k. \<not> isIndexKey k) (dropWhile isIndexKey ks))"

section \<open>Training pairs: validatePairs\<close>

record 'r pair =
  input :: 'r
  groundTruth :: 'r
  maskIndex :: nat
  pair_missingRatio :: jsnum

text \<open>
  The warnings of the source are template strings; each constructor stands for one
  template, with the interpolated values as its arguments.
\<close>

datatype warning =
    Message string
  | KeyCountMismatch nat
  | NoMaskedValues nat
  | Validated nat nat nat
  | LandMaskGenerated nat
  | CloudMasksGenerated nat jsnum jsnum
  | AppliedMasks nat
  | BuiltPairs nat
  | SplitSizes nat nat nat
  | RatioSum jsnum
  | OutliersFound string nat "jsnum \<times> jsnum"
  | SpikesDetected nat
  | RemovedRows nat

record validationReport =
  totalPairs :: nat
  validPairs :: nat
  invalidPairs :: nat
  validPercentage :: jsnum

record vstate =
  vs_valid :: nat
  vs_invalid :: nat
  vs_warnings :: "warning list"

text \<open>The body of the \<open>forEach\<close> callback of validatePairs, for the pair at \<open>idx\<close>.\<close>

definition hasMaskedValues :: "row pair \<Rightarrow> bool" where
  "hasMaskedValues p =
     list_ex (\<lambda>key. getv (input p) key = JNull \<and> getv (groundTruth p) key \<noteq> JNull)
       (Object_keys (input p))"

definition validatePair :: "vstate \<Rightarrow> nat \<times> row pair \<Rightarrow> vstate" where
  "validatePair s ip =
     (let idx = fst ip; p = snd ip;
          inputKeys = Object_keys (input p);
          gtKeys = Object_keys (groundTruth p)
      in if length inputKeys \<noteq> length gtKeys
         then s\<lparr>vs_invalid := vs_invalid s + 1,
                vs_warnings := vs_warnings s @ [KeyCountMismatch idx]\<rparr>
         else if hasMaskedValues p
         then s\<lparr>vs_valid := vs_valid s + 1\<rparr>
         else s\<lparr>vs_invalid := vs_invalid s + 1,
                vs_warnings := vs_warnings s @ [NoMaskedValues idx]\<rparr>)"

definition validatePairs :: "row pair list \<Rightarrow> validationReport \<times> warning list" where
  "validatePairs pairs =
     (let s = foldl validatePair \<lparr>vs_valid = 0, vs_invalid = 0, vs_warnings = []\<rparr>
                (enumerate 0 pairs);
          n = length pairs;
          report = \<lparr>totalPairs = n,
                    validPairs = vs_valid s,
                    invalidPairs = vs_invalid s,
                    validPercentage =
                      toFixedNumber 2
                        (js_mul (js_div (Fin (real (vs_valid s))) (Fin (real n))) (Fin 100))\<rparr>
      in (report, vs_warnings s @ [Validated n (vs_valid s) (vs_invalid s)]))"

text \<open>What the loop counts: a pair is counted valid when its two rows have the same number
  of keys and some key of the input is null where the ground truth is not.\<close>

definition countedValid :: "row pair \<Rightarrow> bool" where
  "countedValid p =
     (length (Object_keys (input p)) = length (Object_keys (groundTruth p)) \<and> hasMaskedValues p)"

section \<open>Mask generation: generateMasks\<close>

text \<open>
  The parsed content of a data file: an array of rows, or (from a JSON file that holds an
  object) a single object.
\<close>

datatype jsdata = JArray table | JObject row

datatype error = TypeError

record cloudMask =
  index :: nat
  missingRatio :: jsnum
  mask_map :: "(string \<times> bool) list"

text \<open>A mask file: \<open>{ landMask, cloudMasks }\<close>, either of which may be absent.\<close>

record maskSet =
  landMask :: "(string \<times> bool) list option"
  cloudMasks :: "cloudMask list option"

record maskParams =
  missing_ratio_range :: "(jsnum \<times> jsnum) option"
  mask_count :: "jsnum option"

record maskReport =
  landMaskGenerated :: bool
  landPixelCount :: nat
  cloudMasksGenerated :: nat
  missingRatioRange :: "(jsnum \<times> jsnum) option"

text \<open>The test of the preprocess tool's generateMasks, written inline there:
  \<open>val === null || val === undefined || val === '' || (typeof val === 'number' && isNaN(val))\<close>.\<close>

definition missingInline :: "jsval \<Rightarrow> bool" where
  "missingInline val =
     (val = JNull \<or> val = JUndef \<or> val = JStr [] \<or> (case val of JNumber n \<Rightarrow> n = NaN | _ \<Rightarrow> False))"

text \<open>Modelled from the spec: \<open>isMissing\<close> is imported from \<open>@utils/oceanData\<close>, which is
  not among the sources. The spec: a value is missing if it is null, undefined, the empty
  string, or a NaN-valued number.\<close>

definition isMissing :: "jsval \<Rightarrow> bool" where
  "isMissing v = (v = JNull \<or> v = JUndef \<or> v = JStr [] \<or> v = JNumber NaN)"

text \<open>\<open>x || d\<close> on a number: zero and NaN are falsy.\<close>

definition truthy_num :: "jsnum \<Rightarrow> bool" where
  "truthy_num c = (c \<noteq> NaN \<and> c \<noteq> Fin 0)"

text \<open>\<open>params?.missing_ratio_range || [0.1, 0.6]\<close> and \<open>params?.mask_count || 360\<close>.\<close>

definition rangeOf :: "maskParams option \<Rightarrow> jsnum \<times> jsnum" where
  "rangeOf params =
     (case params of
        None \<Rightarrow> (fl (1 / 10), fl (6 / 10))
      | Some p \<Rightarrow>
          (case missing_ratio_range p of
             None \<Rightarrow> (fl (1 / 10), fl (6 / 10))
           | Some r \<Rightarrow> r))"

definition maskCountOf :: "maskParams option \<Rightarrow> jsnum" where
  "maskCountOf params =
     (case params of
        None \<Rightarrow> Fin 360
      | Some p \<Rightarrow>
          (case mask_count p of
             None \<Rightarrow> Fin 360
           | Some c \<Rightarrow> if truthy_num c then c else Fin 360))"

text \<open>The land mask: \<open>keys.forEach(key => { landMask[key] = data.every(row => miss(row[key])) })\<close>.\<close>

definition landMaskOf :: "(jsval \<Rightarrow> bool) \<Rightarrow> table \<Rightarrow> string list \<Rightarrow> (string \<times> bool) list" where
  "landMaskOf miss data keys =
     foldl (\<lambda>lm key. setProp key (list_all (\<lambda>row. miss (getv row key)) data) lm) [] keys"

text \<open>\<open>Object.values(landMask).filter(v => v).length\<close>.\<close>

definition landPixels :: "(string \<times> bool) list \<Rightarrow> nat" where
  "landPixels lm = length (filter (\<lambda>v. v) (map snd lm))"

definition seaKeysOf :: "(string \<times> bool) list \<Rightarrow> string list \<Rightarrow> string list" where
  "seaKeysOf lm keys = filter (\<lambda>key. \<not> flag lm key) keys"

text \<open>The per-field map of one row: \<open>keys.forEach(key => { mask[key] = miss(row[key]) })\<close>.\<close>

definition rowMask :: "(jsval \<Rightarrow> bool) \<Rightarrow> string list \<Rightarrow> row \<Rightarrow> (string \<times> bool) list" where
  "rowMask miss keys row = foldl (\<lambda>m key. setProp key (miss (getv row key)) m) [] keys"

definition rowRatio :: "(jsval \<Rightarrow> bool) \<Rightarrow> string list \<Rightarrow> row \<Rightarrow> jsnum" where
  "rowRatio miss seaKeys row =
     js_div (Fin (real (length (filter (\<lambda>key. miss (getv row key)) seaKeys))))
            (Fin (real (length seaKeys)))"

text \<open>
  The cloud-mask loop
  \<open>for (let i = 0; i < data.length && cloudMasks.length < maskCount; i++)\<close>:
  the rows still to visit, the index of the first of them, and the masks pushed so far.
\<close>

fun cloudLoop ::
  "(jsval \<Rightarrow> bool) \<Rightarrow> string list \<Rightarrow> string list \<Rightarrow> jsnum \<times> jsnum \<Rightarrow> jsnum \<Rightarrow>
   nat \<Rightarrow> row list \<Rightarrow> cloudMask list \<Rightarrow> cloudMask list" where
  "cloudLoop miss keys seaKeys rng maskCount i [] acc = acc"
| "cloudLoop miss keys seaKeys rng maskCount i (row # rest) acc =
     (if js_lt (Fin (real (length acc))) maskCount
      then (let missingRatio = rowRatio miss seaKeys row
            in if js_ge missingRatio (fst rng) \<and> js_le missingRatio (snd rng)
               then cloudLoop miss keys seaKeys rng maskCount (Suc i) rest
                      (acc @ [\<lparr>index = i,
                               missingRatio = toFixedNumber 4 missingRatio,
                               mask_map = rowMask miss keys row\<rparr>])
               else cloudLoop miss keys seaKeys rng maskCount (Suc i) rest acc)
      else acc)"

text \<open>The generateMasks of the preprocess tool: it returns
  \<open>{ landMask?, cloudMasks?, warnings }\<close>.\<close>

definition generateMasks_preprocess ::
  "jsdata \<Rightarrow> maskParams option \<Rightarrow> maskSet \<times> warning list" where
  "generateMasks_preprocess data params =
     (case data of
        JObject obj \<Rightarrow>
          (\<lparr>landMask = None, cloudMasks = None\<rparr>,
           [Message ''Data format not suitable for mask generation. Expected array of observations.''])
      | JArray [] \<Rightarrow>
          (\<lparr>landMask = None, cloudMasks = None\<rparr>,
           [Message ''Data format not suitable for mask generation. Expected array of observations.''])
      | JArray (firstRow # others) \<Rightarrow>
          (let rows = firstRow # others;
               missingRatioRange = rangeOf params;
               maskCount = maskCountOf params;
               keys = Object_keys firstRow;
               lm = landMaskOf missingInline rows keys;
               landPixelCount = landPixels lm;
               seaKeys = seaKeysOf lm keys
           in if length seaKeys = 0
              then (\<lparr>landMask = Some lm, cloudMasks = None\<rparr>,
                    [LandMaskGenerated landPixelCount,
                     Message ''No valid sea pixels found for cloud mask generation''])
              else (let cms = cloudLoop missingInline keys seaKeys missingRatioRange maskCount 0 rows []
                    in (\<lparr>landMask = Some lm, cloudMasks = Some cms\<rparr>,
                        [LandMaskGenerated landPixelCount,
                         CloudMasksGenerated (length cms) (fst missingRatioRange)
                           (snd missingRatioRange)]))))"

text \<open>The generateMasks of the mask tool: it returns \<open>{ masks, report, warnings }\<close>, and
  tests \<open>data.length === 0\<close> only. On an object, \<open>data.length\<close> and \<open>data[0]\<close> are
  property reads; \<open>Object.keys\<close> of \<open>undefined\<close> or \<open>null\<close> throws a TypeError, of a
  number or a built-in member it is empty, of a string it lists the indices, and then
  \<open>data.every\<close> is not a function.\<close>

record genResult =
  masks :: maskSet
  report :: "maskReport option"
  warnings :: "warning list"

definition generateMasks_array :: "row \<Rightarrow> row list \<Rightarrow> maskParams option \<Rightarrow> genResult" where
  "generateMasks_array firstRow others params =
     (let rows = firstRow # others;
          missingRatioRange = rangeOf params;
          maskCount = maskCountOf params;
          keys = Object_keys firstRow;
          lm = landMaskOf isMissing rows keys;
          landPixelCount = landPixels lm;
          seaKeys = seaKeysOf lm keys
      in if length seaKeys = 0
         then \<lparr>masks = \<lparr>landMask = Some lm, cloudMasks = Some []\<rparr>,
               report = Some \<lparr>landMaskGenerated = True, landPixelCount = landPixelCount,
                               cloudMasksGenerated = 0, missingRatioRange = None\<rparr>,
               warnings = [LandMaskGenerated landPixelCount,
                           Message ''No valid sea pixels found for cloud mask generation'']\<rparr>
         else (let cms = cloudLoop isMissing keys seaKeys missingRatioRange maskCount 0 rows []
               in \<lparr>masks = \<lparr>landMask = Some lm, cloudMasks = Some cms\<rparr>,
                   report = Some \<lparr>landMaskGenerated = True, landPixelCount = landPixelCount,
                                   cloudMasksGenerated = length cms,
                                   missingRatioRange = Some missingRatioRange\<rparr>,
                   warnings = [LandMaskGenerated landPixelCount,
                               CloudMasksGenerated (length cms) (fst missingRatioRange)
                                 (snd missingRatioRange)]\<rparr>))"

definition emptyResult :: genResult where
  "emptyResult =
     \<lparr>masks = \<lparr>landMask = None, cloudMasks = None\<rparr>, report = None,
      warnings = [Message ''Data format not suitable for mask generation'']\<rparr>"

definition generateMasks :: "jsdata \<Rightarrow> maskParams option \<Rightarrow> error + genResult" where
  "generateMasks data params =
     (case data of
        JArray [] \<Rightarrow> Inr emptyResult
      | JArray (firstRow # others) \<Rightarrow> Inr (generateMasks_array firstRow others params)
      | JObject obj \<Rightarrow>
          (if getv obj ''length'' = JNumber (Fin 0) then Inr emptyResult
           else (case getv obj ''0'' of
                   JUndef \<Rightarrow> Inl TypeError
                 | JNull \<Rightarrow> Inl TypeError
                 | JNumber n \<Rightarrow> Inr (generateMasks_array [] [] params)
                 | JStr s \<Rightarrow> if s = [] then Inr (generateMasks_array [] [] params)
                            else Inl TypeError
                 | JBuiltin b \<Rightarrow> Inr (generateMasks_array [] [] params))))"

text \<open>
  How many further masks the loop condition \<open>cloudMasks.length < maskCount\<close> admits when
  \<open>h\<close> masks are already pushed and \<open>n\<close> matching rows are still to come.
\<close>

fun quota :: "jsnum \<Rightarrow> nat \<Rightarrow> nat \<Rightarrow> nat" where
  "quota (Fin c) h n = min n (nat \<lceil>c\<rceil> - h)"
| "quota PInf h n = n"
| "quota NInf h n = 0"
| "quota NaN h n = 0"

text \<open>The test on a row's ratio, and the mask the loop pushes for row \<open>i\<close>.\<close>

definition inRange :: "jsnum \<times> jsnum \<Rightarrow> jsnum \<Rightarrow> bool" where
  "inRange rng q = (js_ge q (fst rng) \<and> js_le q (snd rng))"

definition maskOfRow ::
  "(jsval \<Rightarrow> bool) \<Rightarrow> string list \<Rightarrow> string list \<Rightarrow> nat \<times> row \<Rightarrow> cloudMask" where
  "maskOfRow miss keys seaKeys ir =
     \<lparr>index = fst ir,
      missingRatio = toFixedNumber 4 (rowRatio miss seaKeys (snd ir)),
      mask_map = rowMask miss keys (snd ir)\<rparr>"

text \<open>All matching rows of a table, in row order, as masks.\<close>

definition matches ::
  "(jsval \<Rightarrow> bool) \<Rightarrow> string list \<Rightarrow> string list \<Rightarrow> jsnum \<times> jsnum \<Rightarrow> nat \<Rightarrow> row list \<Rightarrow>
   cloudMask list" where
  "matches miss keys seaKeys rng i rows =
     map (maskOfRow miss keys seaKeys)
       (filter (\<lambda>ir. inRange rng (rowRatio miss seaKeys (snd ir))) (enumerate i rows))"

text \<open>The exact ratio of a row: missing non-land fields over non-land fields.\<close>

definition exactRatio :: "(jsval \<Rightarrow> bool) \<Rightarrow> string list \<Rightarrow> row \<Rightarrow> real" where
  "exactRatio miss seaKeys row =
     real (length (filter (\<lambda>key. miss (getv row key)) seaKeys)) / real (length seaKeys)"

text \<open>A field is land in a table when it is missing in every row.\<close>

definition isLand :: "string \<Rightarrow> table \<Rightarrow> bool" where
  "isLand f T = list_all (\<lambda>row. isMissing (getv row f)) T"

text \<open>Two tables with the same rows and keys that agree on every field but \<open>f\<close>.\<close>

definition sameExcept :: "string \<Rightarrow> table \<Rightarrow> table \<Rightarrow> bool" where
  "sameExcept f T T' =
     list_all2 (\<lambda>r r'. Object_keys r = Object_keys r' \<and>
                  list_all (\<lambda>k. k = f \<or> getv r k = getv r' k) (Object_keys r)) T T'"

text \<open>The row indices whose ratio passes the range test, in row order.\<close>

definition selected :: "string list \<Rightarrow> jsnum \<times> jsnum \<Rightarrow> table \<Rightarrow> nat list" where
  "selected seaKeys rng T =
     filter (\<lambda>i. inRange rng (rowRatio isMissing seaKeys (T ! i))) [0..<length T]"

text \<open>The non-land fields of a table with first row \<open>r0\<close>: the \<open>seaKeys\<close> of generateMasks.\<close>

definition nonLandFields :: "row \<Rightarrow> row list \<Rightarrow> string list" where
  "nonLandFields r0 rs =
     seaKeysOf (landMaskOf isMissing (r0 # rs) (Object_keys r0)) (Object_keys r0)"

section \<open>Mask application: applyMasksToData and buildTrainingPairs\<close>

text \<open>
  Rows are objects: a table holds references to them. The heap lists the objects allocated
  so far, an address is a position in it, and an object literal or a spread copy allocates
  at the end. Arrays are kept as immutable lists of addresses: neither function writes to
  an array it was given.
\<close>

type_synonym heap = "row list"

type_synonym addr = nat

definition alloc :: "heap \<Rightarrow> row \<Rightarrow> heap \<times> addr" where
  "alloc h r = (h @ [r], length h)"

text \<open>\<open>const newRow = { ...row }; Object.keys(mask).forEach(key => { if (mask[key]) newRow[key] = null })\<close>\<close>

definition applyMask :: "(string \<times> bool) list \<Rightarrow> row \<Rightarrow> row" where
  "applyMask msk row =
     foldl (\<lambda>newRow key. if flag msk key then setProp key JNull newRow else newRow)
       row (Object_keys msk)"

text \<open>The callback of \<open>data.map((row, idx) => ...)\<close> over the rows from index \<open>idx\<close> on.\<close>

fun applyLoop :: "cloudMask list \<Rightarrow> nat \<Rightarrow> addr list \<Rightarrow> heap \<Rightarrow> heap \<times> addr list" where
  "applyLoop cms idx [] h = (h, [])"
| "applyLoop cms idx (row # rest) h =
     (if idx < length cms
      then (let (h1, newRow) = alloc h (applyMask (mask_map (cms ! idx)) (h ! row));
                (h2, out) = applyLoop cms (Suc idx) rest h1
            in (h2, newRow # out))
      else (let (h2, out) = applyLoop cms (Suc idx) rest h
            in (h2, row # out)))"

record applyResult =
  result_data :: "addr list"
  masksApplied :: nat
  apply_warnings :: "warning list"

definition applyMasksToData :: "heap \<Rightarrow> addr list \<Rightarrow> maskSet \<Rightarrow> heap \<times> applyResult" where
  "applyMasksToData h rows ms =
     (case cloudMasks ms of
        None \<Rightarrow>
          (h, \<lparr>result_data = rows, masksApplied = 0,
               apply_warnings = [Message ''No cloud masks found to apply'']\<rparr>)
      | Some cms \<Rightarrow>
          if length cms = 0
          then (h, \<lparr>result_data = rows, masksApplied = 0,
                    apply_warnings = [Message ''No cloud masks found to apply'']\<rparr>)
          else (let (h', maskedData) = applyLoop cms 0 rows h
                in (h', \<lparr>result_data = maskedData,
                         masksApplied = min (length cms) (length rows),
                         apply_warnings = [AppliedMasks (min (length cms) (length rows))]\<rparr>)))"

text \<open>
  \<open>const inputRow = {}; Object.keys(gtRow).forEach(key => { if (cloudMask[key] ||
  (landMask && landMask[key])) inputRow[key] = null; else inputRow[key] = gtRow[key] })\<close>
\<close>

definition landFlag :: "(string \<times> bool) list option \<Rightarrow> string \<Rightarrow> bool" where
  "landFlag lm key = (case lm of None \<Rightarrow> False | Some m \<Rightarrow> flag m key)"

definition buildInput :: "(string \<times> bool) list \<Rightarrow> (string \<times> bool) list option \<Rightarrow> row \<Rightarrow> row" where
  "buildInput cloudMask lm gtRow =
     foldl (\<lambda>inputRow key.
              setProp key
                (if flag cloudMask key \<or> landFlag lm key then JNull else getv gtRow key)
                inputRow)
       [] (Object_keys gtRow)"

text \<open>The loop \<open>for (let i = 0; i < Math.min(cloudMasks.length, groundTruth.length); i++)\<close>,
  from index \<open>i\<close> with the ground-truth rows still to visit.\<close>

fun pairLoop ::
  "cloudMask list \<Rightarrow> (string \<times> bool) list option \<Rightarrow> nat \<Rightarrow> addr list \<Rightarrow> heap \<Rightarrow> addr pair list \<Rightarrow>
   heap \<times> addr pair list" where
  "pairLoop cms lm i [] h pairs = (h, pairs)"
| "pairLoop cms lm i (gtRow # rest) h pairs =
     (if i < length cms
      then (let (h1, inputRow) = alloc h (buildInput (mask_map (cms ! i)) lm (h ! gtRow))
            in pairLoop cms lm (Suc i) rest h1
                 (pairs @ [\<lparr>input = inputRow, groundTruth = gtRow, maskIndex = i,
                            pair_missingRatio = missingRatio (cms ! i)\<rparr>]))
      else (h, pairs))"

definition buildTrainingPairs ::
  "heap \<Rightarrow> addr list \<Rightarrow> maskSet \<Rightarrow> heap \<times> addr pair list \<times> warning list" where
  "buildTrainingPairs h gt ms =
     (case cloudMasks ms of
        None \<Rightarrow> (h, [], [Message ''No cloud masks available for pair generation''])
      | Some cms \<Rightarrow>
          if length cms = 0
          then (h, [], [Message ''No cloud masks available for pair generation''])
          else (let (h', pairs) = pairLoop cms (landMask ms) 0 gt h []
                in (h', pairs, [BuiltPairs (length pairs)])))"

text \<open>The number of cloud masks of a mask set: \<open>|cloudMasks|\<close>, zero when the entry is absent.\<close>

definition cloudMaskCount :: "maskSet \<Rightarrow> nat" where
  "cloudMaskCount ms = (case cloudMasks ms of None \<Rightarrow> 0 | Some cms \<Rightarrow> length cms)"

text \<open>
  validatePairs is called once, on the pairs that buildTrainingPairs has just built:
  \<open>derefPair\<close> reads the two rows of a pair from the heap. In such a pair the rows are
  objects, with distinct keys, and every key of the input is a key of the ground truth.
\<close>

definition derefPair :: "heap \<Rightarrow> addr pair \<Rightarrow> row pair" where
  "derefPair h p =
     \<lparr>input = h ! input p, groundTruth = h ! groundTruth p, maskIndex = maskIndex p,
      pair_missingRatio = pair_missingRatio p\<rparr>"

definition builtShape :: "row pair \<Rightarrow> bool" where
  "builtShape p =
     (distinct (Object_keys (input p)) \<and> distinct (Object_keys (groundTruth p)) \<and>
      set (Object_keys (input p)) \<subseteq> set (Object_keys (groundTruth p)))"

text \<open>
  The criterion of the specification for a valid pair: the key sets of input and ground
  truth are equal, and some field of the input is null where the ground truth is not.
\<close>

definition validBySpec :: "row pair \<Rightarrow> bool" where
  "validBySpec p =
     (set (Object_keys (input p)) = set (Object_keys (groundTruth p)) \<and>
      (\<exists>k \<in> set (Object_keys (input p)).
         getv (input p) k = JNull \<and> getv (groundTruth p) k \<noteq> JNull))"

section \<open>Dataset split: splitDataset\<close>

record splitParams =
  train_ratio :: "jsnum option"
  val_ratio :: "jsnum option"
  test_ratio :: "jsnum option"
  shuffle :: "bool option"

text \<open>\<open>params?.train_ratio || 0.7\<close>: the default replaces an absent ratio, zero and NaN.\<close>

definition ratioOr :: "real \<Rightarrow> jsnum option \<Rightarrow> jsnum" where
  "ratioOr d v = (case v of None \<Rightarrow> fl d | Some c \<Rightarrow> if truthy_num c then c else fl d)"

definition trainRatioOf :: "splitParams option \<Rightarrow> jsnum" where
  "trainRatioOf params = (case params of None \<Rightarrow> fl (7 / 10) | Some p \<Rightarrow> ratioOr (7 / 10) (train_ratio p))"

definition valRatioOf :: "splitParams option \<Rightarrow> jsnum" where
  "valRatioOf params = (case params of None \<Rightarrow> fl (15 / 100) | Some p \<Rightarrow> ratioOr (15 / 100) (val_ratio p))"

definition testRatioOf :: "splitParams option \<Rightarrow> jsnum" where
  "testRatioOf params = (case params of None \<Rightarrow> fl (15 / 100) | Some p \<Rightarrow> ratioOr (15 / 100) (test_ratio p))"

text \<open>\<open>params?.shuffle !== false\<close>.\<close>

definition shuffleOf :: "splitParams option \<Rightarrow> bool" where
  "shuffleOf params = (case params of None \<Rightarrow> True | Some p \<Rightarrow> shuffle p \<noteq> Some False)"

text \<open>
  The shuffle loop \<open>for (let i = data.length - 1; i > 0; i--)\<close> with
  \<open>j = Math.floor(Math.random() * (i + 1))\<close> and the swap of \<open>data[i]\<close> and \<open>data[j]\<close>.
  \<open>rnd k\<close> is the value of the \<open>k\<close>-th call of \<open>Math.random()\<close>, a double in [0, 1); the
  product of such a number and an index is finite.
\<close>

definition shuffleIndex :: "(nat \<Rightarrow> real) \<Rightarrow> nat \<Rightarrow> nat \<Rightarrow> nat" where
  "shuffleIndex rnd k i =
     (case js_mul (Fin (rnd k)) (Fin (real (i + 1))) of Fin p \<Rightarrow> nat \<lfloor>p\<rfloor> | _ \<Rightarrow> 0)"

fun shuffleLoop :: "(nat \<Rightarrow> real) \<Rightarrow> nat \<Rightarrow> nat \<Rightarrow> 'a list \<Rightarrow> 'a list" where
  "shuffleLoop rnd k 0 xs = xs"
| "shuffleLoop rnd k (Suc i) xs =
     (let j = shuffleIndex rnd k (Suc i)
      in shuffleLoop rnd (Suc k) i (xs[Suc i := xs ! j, j := xs ! Suc i]))"

text \<open>A degenerate generator, for runs that do not shuffle.\<close>

definition zeroRandom :: "nat \<Rightarrow> real" where
  "zeroRandom k = 0"

fun js_floor :: "jsnum \<Rightarrow> jsnum" where
  "js_floor (Fin x) = Fin (of_int \<lfloor>x\<rfloor>)"
| "js_floor v = v"

text \<open>
  \<open>Array.prototype.slice\<close>: a relative index is truncated to an integer (NaN counts as 0),
  a negative one counts from the end, and the result is clamped to the array.
\<close>

fun relIndex :: "nat \<Rightarrow> jsnum \<Rightarrow> nat" where
  "relIndex len NaN = 0"
| "relIndex len NInf = 0"
| "relIndex len PInf = len"
| "relIndex len (Fin x) =
     (let r = (if x < 0 then \<lceil>x\<rceil> else \<lfloor>x\<rfloor>)
      in if r < 0 then nat (max (int len + r) 0) else min (nat r) len)"

definition js_slice :: "'a list \<Rightarrow> jsnum \<Rightarrow> jsnum option \<Rightarrow> 'a list" where
  "js_slice xs start fin =
     (let len = length xs;
          k = relIndex len start;
          e = (case fin of None \<Rightarrow> len | Some f \<Rightarrow> relIndex len f)
      in take (e - k) (drop k xs))"

record 'a splitResult =
  train :: "'a list"
  val :: "'a list"
  test :: "'a list"
  splitInfo :: "nat \<times> nat \<times> nat"
  split_warnings :: "warning list"

definition splitDataset :: "(nat \<Rightarrow> real) \<Rightarrow> 'a list \<Rightarrow> splitParams option \<Rightarrow> 'a splitResult" where
  "splitDataset rnd pairs params =
     (let trainRatio = trainRatioOf params;
          valRatio = valRatioOf params;
          testRatio = testRatioOf params;
          shuffle = shuffleOf params;
          total = js_add (js_add trainRatio valRatio) testRatio;
          w1 = (if js_gt (js_abs (js_sub total (Fin 1))) (fl (1 / 1000))
                then [RatioSum total] else []);
          xs = (if shuffle then shuffleLoop rnd 0 (length pairs - 1) pairs else pairs);
          w2 = (if shuffle then [Message ''Shuffled dataset before splitting''] else []);
          totalSamples = Fin (real (length xs));
          trainSize = js_floor (js_mul totalSamples trainRatio);
          valSize = js_floor (js_mul totalSamples valRatio);
          train = js_slice xs (Fin 0) (Some trainSize);
          val = js_slice xs trainSize (Some (js_add trainSize valSize));
          test = js_slice xs (js_add trainSize valSize) None
      in \<lparr>train = train, val = val, test = test,
          splitInfo = (length train, length val, length test),
          split_warnings = w1 @ w2 @ [SplitSizes (length train) (length val) (length test)]\<rparr>)"

section \<open>Quality control: performQualityControl\<close>

record qcParams =
  temp_range :: "(jsnum \<times> jsnum) option"
  salinity_range :: "(jsnum \<times> jsnum) option"
  pressure_range :: "(jsnum \<times> jsnum) option"
  oxygen_range :: "(jsnum \<times> jsnum) option"
  check_spikes :: "bool option"
  spike_threshold :: "jsnum option"

text \<open>Truthiness of a cell, and \<open>a || b\<close>.\<close>

fun truthy :: "jsval \<Rightarrow> bool" where
  "truthy JUndef = False"
| "truthy JNull = False"
| "truthy (JNumber n) = truthy_num n"
| "truthy (JStr s) = (s \<noteq> [])"
| "truthy (JBuiltin b) = True"

definition js_or :: "jsval \<Rightarrow> jsval \<Rightarrow> jsval" where
  "js_or a b = (if truthy a then a else b)"

text \<open>\<open>v !== undefined && typeof v === 'number' && (v < range[0] || v > range[1])\<close>.\<close>

definition outOfRange :: "jsval \<Rightarrow> jsnum \<times> jsnum \<Rightarrow> bool" where
  "outOfRange v rng = (case v of JNumber n \<Rightarrow> js_lt n (fst rng) \<or> js_gt n (snd rng) | _ \<Rightarrow> False)"

definition tempOf :: "row \<Rightarrow> jsval" where
  "tempOf row = js_or (js_or (getv row ''temperature'') (getv row ''Temperature'')) (getv row ''temp'')"

definition salinityOf :: "row \<Rightarrow> jsval" where
  "salinityOf row = js_or (getv row ''salinity'') (getv row ''Salinity'')"

definition pressureOf :: "row \<Rightarrow> jsval" where
  "pressureOf row = js_or (getv row ''pressure'') (getv row ''Pressure'')"

definition oxygenOf :: "row \<Rightarrow> jsval" where
  "oxygenOf row = js_or (getv row ''oxygen'') (getv row ''Oxygen'')"

definition oxygenOut :: "(jsnum \<times> jsnum) option \<Rightarrow> row \<Rightarrow> bool" where
  "oxygenOut rng row = (case rng of None \<Rightarrow> False | Some r \<Rightarrow> outOfRange (oxygenOf row) r)"

text \<open>
  The test of the spike loop on the three temperature cells:
  \<open>avgNeighbor = (prev + next) / 2\<close>, \<open>diff = Math.abs(curr - avgNeighbor)\<close>,
  \<open>stdWindow = Math.sqrt(((prev - avgNeighbor) ** 2 + (next - avgNeighbor) ** 2) / 2)\<close>,
  \<open>stdWindow > 0 && diff > spikeThreshold * stdWindow\<close>.
\<close>

definition js_sq :: "jsnum \<Rightarrow> jsnum" where
  "js_sq x = js_mul x x"

definition spikeTest :: "jsnum \<Rightarrow> jsval \<Rightarrow> jsval \<Rightarrow> jsval \<Rightarrow> bool" where
  "spikeTest spikeThreshold prevT currT nextT =
     (case (prevT, currT, nextT) of
        (JNumber p, JNumber c, JNumber n) \<Rightarrow>
          (let avgNeighbor = js_div (js_add p n) (Fin 2);
               diff = js_abs (js_sub c avgNeighbor);
               stdWindow = js_sqrt (js_div (js_add (js_sq (js_sub p avgNeighbor))
                                                   (js_sq (js_sub n avgNeighbor))) (Fin 2))
           in js_gt stdWindow (Fin 0) \<and> js_gt diff (js_mul spikeThreshold stdWindow))
      | _ \<Rightarrow> False)"

text \<open>
  The loop \<open>for (let i = 1; i < markedData.length - 1; i++)\<close> over the marked rows (a row
  with its \<open>_qc_outlier\<close> flag); \<open>tempKey\<close> is \<open>'temperature' || 'Temperature' || 'temp'\<close>,
  that is \<open>'temperature'\<close>.
\<close>

function spikeLoop :: "jsnum \<Rightarrow> nat \<Rightarrow> (row \<times> bool) list \<Rightarrow> nat \<Rightarrow> (row \<times> bool) list \<times> nat" where
  "spikeLoop thr i marked spikes =
     (if i + 1 < length marked
      then (let prevT = getv (fst (marked ! (i - 1))) ''temperature'';
                currT = getv (fst (marked ! i)) ''temperature'';
                nextT = getv (fst (marked ! (i + 1))) ''temperature''
            in if spikeTest thr prevT currT nextT
               then spikeLoop thr (i + 1) (marked[i := (fst (marked ! i), True)]) (spikes + 1)
               else spikeLoop thr (i + 1) marked spikes)
      else (marked, spikes))"
  by pat_completeness auto
termination
  by (relation "measure (\<lambda>(thr, i, marked, spikes). length marked - i)") auto

record qcReport =
  temperatureOutliers :: nat
  salinityOutliers :: nat
  pressureOutliers :: nat
  oxygenOutliers :: "nat option"
  spikesDetected :: "nat option"
  outlierPercentage :: jsnum

record qcResult =
  qc_data :: table
  qc_report :: qcReport
  qc_warnings :: "warning list"

text \<open>The rest parameter \<open>const { _qc_outlier, ...cleanRow } = row\<close>.\<close>

definition cleanRow :: "row \<Rightarrow> row" where
  "cleanRow row = AList.delete ''_qc_outlier'' row"

definition performQualityControl :: "table \<Rightarrow> qcParams \<Rightarrow> bool \<Rightarrow> qcResult" where
  "performQualityControl rows params removeOutliers =
     (let tempRange = (case temp_range params of None \<Rightarrow> (Fin (- 2), Fin 40) | Some r \<Rightarrow> r);
          salinityRange = (case salinity_range params of None \<Rightarrow> (Fin 0, Fin 42) | Some r \<Rightarrow> r);
          pressureRange = (case pressure_range params of None \<Rightarrow> (Fin 0, Fin 12000) | Some r \<Rightarrow> r);
          oxygenRange = oxygen_range params;
          checkSpikes = (check_spikes params \<noteq> Some False);
          spikeThreshold = (case spike_threshold params of None \<Rightarrow> Fin 3
                            | Some c \<Rightarrow> if truthy_num c then c else Fin 3);
          tempOutliers = length (filter (\<lambda>row. outOfRange (tempOf row) tempRange) rows);
          salinityOutliers = length (filter (\<lambda>row. outOfRange (salinityOf row) salinityRange) rows);
          pressureOutliers = length (filter (\<lambda>row. outOfRange (pressureOf row) pressureRange) rows);
          oxygenOutliers = length (filter (oxygenOut oxygenRange) rows);
          markedData = map (\<lambda>row. (row, outOfRange (tempOf row) tempRange \<or>
                                         outOfRange (salinityOf row) salinityRange \<or>
                                         outOfRange (pressureOf row) pressureRange \<or>
                                         oxygenOut oxygenRange row)) rows;
          (marked, spikes) = (if checkSpikes then spikeLoop spikeThreshold 1 markedData 0
                              else (markedData, 0));
          processedData = (if removeOutliers
                           then map (\<lambda>m. cleanRow (fst m)) (filter (\<lambda>m. \<not> snd m) marked)
                           else map (\<lambda>m. cleanRow (fst m)) marked);
          totalOutliers = tempOutliers + salinityOutliers + pressureOutliers + oxygenOutliers
      in \<lparr>qc_data = processedData,
          qc_report = \<lparr>temperatureOutliers = tempOutliers,
                        salinityOutliers = salinityOutliers,
                        pressureOutliers = pressureOutliers,
                        oxygenOutliers = (if 0 < oxygenOutliers then Some oxygenOutliers else None),
                        spikesDetected = (if checkSpikes then Some spikes else None),
                        outlierPercentage =
                          js_mul (js_div (Fin (real totalOutliers)) (Fin (real (length rows)))) (Fin 100)\<rparr>,
          qc_warnings =
            (if 0 < tempOutliers then [OutliersFound ''temperature'' tempOutliers tempRange] else []) @
            (if 0 < salinityOutliers then [OutliersFound ''salinity'' salinityOutliers salinityRange] else []) @
            (if 0 < pressureOutliers then [OutliersFound ''pressure'' pressureOutliers pressureRange] else []) @
            (case oxygenRange of
               None \<Rightarrow> []
             | Some r \<Rightarrow> if 0 < oxygenOutliers then [OutliersFound ''oxygen'' oxygenOutliers r] else []) @
            (if 0 < spikes then [SpikesDetected spikes] else []) @
            (if removeOutliers then [RemovedRows (length rows - length processedData)]
             else [Message ''Outliers detected but not removed. Set remove_outliers=true to remove them.''])\<rparr>)"

text \<open>The three-point rule at index \<open>j\<close> of a table: an interior row whose temperature and
  whose neighbours' temperatures pass the test of the loop.\<close>

definition spikeAt :: "jsnum \<Rightarrow> table \<Rightarrow> nat \<Rightarrow> bool" where
  "spikeAt thr rows j =
     (1 \<le> j \<and> j + 1 < length rows \<and>
      spikeTest thr (getv (rows ! (j - 1)) ''temperature'') (getv (rows ! j) ''temperature'')
        (getv (rows ! (j + 1)) ''temperature''))"

text \<open>A table with the given numbers in its \<open>temperature\<close> field.\<close>

definition temperatures :: "real list \<Rightarrow> table" where
  "temperatures ts = map (\<lambda>t. [(''temperature'', JNumber (Fin t))]) ts"


section \<open>Properties of the rounding\<close>

lemma pow2_pos: "0 < pow2 e"
  by (simp add: pow2_def)

lemma pow2_powr: "pow2 e = 2 powr (real_of_int e)"
proof (cases "0 \<le> e")
  case True
  then have "2 powr (real_of_int e) = 2 powr (real (nat e))" by simp
  also have "\<dots> = 2 ^ nat e" by (rule powr_realpow) simp
  finally show ?thesis using True by (simp add: pow2_def)
next
  case False
  then have "2 powr (real_of_int e) = 2 powr (- real (nat (- e)))" by simp
  also have "\<dots> = 1 / (2 powr real (nat (- e)))" by (simp add: powr_minus divide_inverse)
  also have "2 powr real (nat (- e)) = 2 ^ nat (- e)" by (rule powr_realpow) simp
  finally show ?thesis using False by (simp add: pow2_def)
qed

lemma pow2_add: "pow2 (a + b) = pow2 a * pow2 b"
  by (simp add: pow2_powr powr_add)

lemma pow2_mono: "a \<le> b \<Longrightarrow> pow2 a \<le> pow2 b"
  by (simp add: pow2_powr)

lemma pow2_less: "pow2 a < pow2 b \<longleftrightarrow> a < b"
  by (simp add: pow2_powr)

lemma pow2_nat: "pow2 (int n) = 2 ^ n"
  by (simp add: pow2_def)

lemma expo_bounds:
  assumes "0 < a"
  shows "pow2 (expo a) \<le> a \<and> a < pow2 (expo a + 1)"
proof (cases "1 \<le> a")
  case True
  define n where "n = nat \<lfloor>a\<rfloor>"
  have f: "0 < \<lfloor>a\<rfloor>" using True by simp
  have rn: "real n = of_int \<lfloor>a\<rfloor>" using f by (simp add: n_def)
  have n: "0 < n" "real n \<le> a" "a < real n + 1"
    using f rn by (simp add: n_def, linarith, linarith)
  define k where "k = floorlog 2 n"
  have b: "2 ^ (k - 1) \<le> n" "n < 2 ^ k"
    using floorlog_bounds [of n 2] n(1) by (auto simp: k_def)
  have k: "0 < k" using b(2) n(1) by (cases k) auto
  have e: "expo a = int k - 1" using True by (simp add: expo_def n_def k_def)
  have "pow2 (expo a) = 2 ^ (k - 1)"
    using k by (simp add: e pow2_def nat_diff_distrib)
  moreover have "pow2 (expo a + 1) = 2 ^ k" by (simp add: e pow2_nat)
  moreover have "(2::real) ^ (k - 1) \<le> real n"
    using b(1) by (metis of_nat_le_iff of_nat_numeral of_nat_power)
  moreover have "real n + 1 \<le> 2 ^ k"
    using b(2) by (metis Suc_leI of_nat_Suc of_nat_le_iff of_nat_numeral of_nat_power add.commute)
  ultimately show ?thesis using n by linarith
next
  case False
  then have a1: "a < 1" by simp
  define m where "m = nat \<lceil>1 / a\<rceil>"
  have y: "1 < 1 / a" using assms a1 by simp
  then have c: "2 \<le> \<lceil>1 / a\<rceil>" by linarith
  have rm: "real m = of_int \<lceil>1 / a\<rceil>" using c by (simp add: m_def)
  have m1: "2 \<le> m" using c by (simp add: m_def le_nat_iff)
  have m2: "1 / a \<le> real m" unfolding rm by linarith
  have m3: "real m - 1 < 1 / a" unfolding rm by linarith
  note m = m1 m2 m3
  define k where "k = floorlog 2 (m - 1)"
  have b: "2 ^ (k - 1) \<le> m - 1" "m - 1 < 2 ^ k"
    using floorlog_bounds [of "m - 1" 2] m(1) by (auto simp: k_def)
  have k: "0 < k" using b(2) m(1) by (cases k) auto
  have e: "expo a = - int k" using False by (simp add: expo_def m_def k_def)
  have p1: "pow2 (expo a) = 1 / 2 ^ k" using k by (simp add: e pow2_def)
  have p2: "pow2 (expo a + 1) = 1 / 2 ^ (k - 1)"
  proof (cases "k = 1")
    case True then show ?thesis by (simp add: e pow2_def)
  next
    case False
    then have "expo a + 1 < 0" using k e by simp
    moreover have "nat (- (expo a + 1)) = k - 1" using k e by simp
    ultimately show ?thesis by (simp add: pow2_def)
  qed
  have "real m \<le> 2 ^ k"
    using b(2) m(1) by (metis Suc_leI Suc_pred' less_le_trans of_nat_le_iff of_nat_numeral of_nat_power zero_less_numeral)
  then have u: "1 / a \<le> 2 ^ k" using m(2) by linarith
  have "real (m - 1) \<ge> 2 ^ (k - 1)"
    using b(1) by (metis of_nat_le_iff of_nat_numeral of_nat_power)
  then have l: "2 ^ (k - 1) < 1 / a" using m by (simp add: of_nat_diff)
  have "1 / 2 ^ k \<le> a"
    using u assms by (simp add: field_simps)
  moreover have "a < 1 / 2 ^ (k - 1)"
    using l assms by (simp add: field_simps)
  ultimately show ?thesis by (simp add: p1 p2)
qed

lemma expo_unique:
  assumes "0 < a" "pow2 e \<le> a" "a < pow2 (e + 1)"
  shows "expo a = e"
proof -
  have b: "pow2 (expo a) \<le> a" "a < pow2 (expo a + 1)"
    using expo_bounds [OF assms(1)] by auto
  have "pow2 e < pow2 (expo a + 1)" using assms(2) b(2) by linarith
  then have "e < expo a + 1" by (simp add: pow2_less)
  moreover have "pow2 (expo a) < pow2 (e + 1)" using assms(3) b(1) by linarith
  then have "expo a < e + 1" by (simp add: pow2_less)
  ultimately show ?thesis by simp
qed


lemma roundEven_le: "y \<le> of_int m \<Longrightarrow> roundEven y \<le> m"
  unfolding roundEven_def Let_def by (auto split: if_splits; linarith)

lemma roundEven_ge: "of_int m \<le> y \<Longrightarrow> m \<le> roundEven y"
  unfolding roundEven_def Let_def by (auto split: if_splits; linarith)

lemma roundEven_int: "roundEven (of_int m) = m"
  unfolding roundEven_def Let_def by simp

lemma roundEven_near: "\<bar>of_int (roundEven y) - y\<bar> \<le> 1 / 2"
  unfolding roundEven_def Let_def by (auto split: if_splits; linarith)

lemma fl_neg: "fl (- x) = js_neg (fl x)"
  unfolding fl_def Let_def by (cases "x = 0") auto

lemma fl_pos_eval:
  assumes "0 < x" "pow2 e \<le> x" "x < pow2 (e + 1)" "- 1022 \<le> e" "e < 1023"
  shows "fl x = Fin (of_int (roundEven (x / pow2 (e - 52))) * pow2 (e - 52))"
proof -
  have e: "expo x = e" using assms(1-3) by (rule expo_unique)
  define u where "u = pow2 (e - 52)"
  have u: "0 < u" by (simp add: u_def pow2_pos)
  have "pow2 (e + 1) = pow2 53 * u"
    unfolding u_def pow2_add [symmetric] by (simp add: add.commute)
  then have "x / u < pow2 53" using assms(3) u by (simp add: field_simps)
  then have "x / u \<le> of_int (2 ^ 53)" by (simp add: pow2_def)
  then have "roundEven (x / u) \<le> 2 ^ 53" by (rule roundEven_le)
  then have "real_of_int (roundEven (x / u)) \<le> pow2 53"
    by (simp add: pow2_def)
  then have "of_int (roundEven (x / u)) * u \<le> pow2 53 * u"
    using u by simp
  also have "\<dots> = pow2 (e + 1)" unfolding u_def pow2_add [symmetric] by (simp add: add.commute)
  also have "\<dots> < pow2 1024" using assms(5) by (simp add: pow2_less)
  finally have "\<not> pow2 1024 \<le> of_int (roundEven (x / u)) * u" by simp
  then show ?thesis
    using assms(1,4) e unfolding fl_def Let_def u_def by (simp add: max_def)
qed

lemma fl_int_pos:
  assumes "0 < k" "k < 2 ^ 53"
  shows "fl (of_int k) = Fin (of_int k)"
proof -
  define x where "x = real_of_int k"
  have x: "0 < x" "1 \<le> x" using assms(1) by (simp_all add: x_def)
  define e where "e = expo x"
  have b: "pow2 e \<le> x" "x < pow2 (e + 1)"
    using expo_bounds [OF x(1)] by (simp_all add: e_def)
  have "pow2 0 < pow2 (e + 1)" using b(2) x(2) by (simp add: pow2_def)
  then have e0: "0 \<le> e" by (simp add: pow2_less)
  have "x < pow2 53" using assms(2) by (simp add: x_def pow2_def)
  then have "pow2 e < pow2 53" using b(1) by linarith
  then have e52: "e \<le> 52" by (simp add: pow2_less)
  have up: "1 / pow2 (e - 52) = pow2 (52 - e)"
  proof -
    have "pow2 (e - 52) * pow2 (52 - e) = 1" unfolding pow2_add [symmetric] by (simp add: pow2_def)
    then show ?thesis using pow2_pos [of "e - 52"] by (simp add: field_simps)
  qed
  have "x / pow2 (e - 52) = x * (1 / pow2 (e - 52))" by simp
  also have "\<dots> = x * pow2 (52 - e)" by (simp only: up)
  also have "\<dots> = of_int (k * 2 ^ nat (52 - e))" using e52 by (simp add: x_def pow2_def)
  finally have "roundEven (x / pow2 (e - 52)) = k * 2 ^ nat (52 - e)"
    by (simp only: roundEven_int)
  then have "of_int (roundEven (x / pow2 (e - 52))) * pow2 (e - 52) = x * pow2 (52 - e) * pow2 (e - 52)"
    using e52 by (simp add: x_def pow2_def)
  also have "\<dots> = x" unfolding mult.assoc pow2_add [symmetric] by (simp add: pow2_def)
  finally have r: "of_int (roundEven (x / pow2 (e - 52))) * pow2 (e - 52) = x" .
  have "fl x = Fin (of_int (roundEven (x / pow2 (e - 52))) * pow2 (e - 52))"
    using x(1) b e0 e52 by (intro fl_pos_eval) auto
  then show ?thesis unfolding r by (simp add: x_def)
qed

lemma fl_integer: "x \<in> \<int> \<Longrightarrow> \<bar>x\<bar> < 2 ^ 53 \<Longrightarrow> fl x = Fin x"
proof -
  assume "x \<in> \<int>" and b: "\<bar>x\<bar> < 2 ^ 53"
  then obtain k where k: "x = of_int k" by (auto elim: Ints_cases)
  have "real_of_int \<bar>k\<bar> < 2 ^ 53" using b by (simp add: k)
  then have kb: "\<bar>k\<bar> < 2 ^ 53" by simp
  consider "k = 0" | "0 < k" | "k < 0" by linarith
  then show ?thesis
  proof cases
    case 1 then show ?thesis by (simp add: k fl_def)
  next
    case 2 then show ?thesis using kb fl_int_pos [of k] by (simp add: k)
  next
    case 3
    then have "fl (of_int (- k)) = Fin (of_int (- k))" using kb by (intro fl_int_pos) auto
    then have "fl (- x) = Fin (- x)" by (simp add: k)
    then show ?thesis unfolding fl_neg by (cases "fl x") auto
  qed
qed

lemma fl_unit:
  assumes "0 \<le> x" "x \<le> 1"
  shows "\<exists>y. fl x = Fin y \<and> 0 \<le> y \<and> y \<le> 1 \<and> \<bar>y - x\<bar> \<le> 1 / 2 ^ 53"
proof (cases "x = 0")
  case True then show ?thesis by (simp add: fl_def)
next
  case False
  then have x: "0 < x" using assms(1) by simp
  have "pow2 (expo x) \<le> pow2 0" using expo_bounds [OF x] assms(2) by (simp add: pow2_def)
  then have "\<not> pow2 0 < pow2 (expo x)" by simp
  then have e0: "expo x \<le> 0" by (simp add: pow2_less)
  define e where "e = max (expo x) (- 1022)"
  have e: "e \<le> 0" using e0 by (simp add: e_def)
  define u where "u = pow2 (e - 52)"
  have u: "0 < u" by (simp add: u_def pow2_pos)
  define M where "M = (2::int) ^ nat (52 - e)"
  have Mu: "of_int M * u = 1"
  proof -
    have "pow2 (52 - e) * pow2 (e - 52) = 1" unfolding pow2_add [symmetric] by (simp add: pow2_def)
    moreover have "pow2 (52 - e) = of_int M" using e by (simp add: pow2_def M_def)
    ultimately show ?thesis by (simp add: u_def)
  qed
  then have xu: "x / u = x * of_int M" using u by (simp add: field_simps)
  have "x * of_int M \<le> of_int M" using assms(2) by (simp add: M_def mult_left_le_one_le)
  then have "roundEven (x / u) \<le> M" unfolding xu by (rule roundEven_le)
  then have "real_of_int (roundEven (x / u)) * u \<le> of_int M * u" using u by simp
  then have r1: "of_int (roundEven (x / u)) * u \<le> 1" using Mu by simp
  have "of_int 0 \<le> x / u" using x u by simp
  then have "0 \<le> roundEven (x / u)" by (rule roundEven_ge)
  then have r0: "0 \<le> real_of_int (roundEven (x / u)) * u" using u by simp
  have "pow2 (e - 52) \<le> pow2 (- 52)" using e by (intro pow2_mono) simp
  then have u52: "u \<le> 1 / 2 ^ 52" by (simp add: u_def pow2_def)
  have "\<bar>of_int (roundEven (x / u)) * u - x\<bar> = \<bar>of_int (roundEven (x / u)) - x / u\<bar> * u"
    using u by (simp add: abs_mult [symmetric] field_simps)
  also have "\<dots> \<le> (1 / 2) * u" using roundEven_near [of "x / u"] u by (intro mult_right_mono) auto
  also have "\<dots> \<le> 1 / 2 ^ 53" using u52 by simp
  finally have near: "\<bar>of_int (roundEven (x / u)) * u - x\<bar> \<le> 1 / 2 ^ 53" .
  have "\<not> pow2 1024 \<le> of_int (roundEven (x / u)) * u"
    using r1 by (simp add: pow2_def)
  then have "fl x = Fin (of_int (roundEven (x / u)) * u)"
    using x unfolding fl_def Let_def u_def e_def by simp
  then show ?thesis using r0 r1 near by simp
qed

lemmas fl_ev = pow2_def roundEven_def Let_def

lemma fl_half: "fl (1 / 2) = Fin (1 / 2)"
  by (subst fl_pos_eval [where e = "- 1"]) (simp_all add: fl_ev)

section \<open>Properties of objects\<close>

lemma map_of_middle:
  "k \<notin> fst ` set t \<Longrightarrow>
   map_of (t @ (k, v) # d) k' = (if k' = k then Some v else map_of (t @ d) k')"
  by (induction t) auto

lemma map_of_insert_new:
  assumes "k \<notin> set (map fst r)"
  shows "map_of (takeWhile P r @ (k, v) # drop (length (takeWhile P r)) r) k' =
     (if k' = k then Some v else map_of r k')"
proof -
  define n where "n = length (takeWhile P r)"
  have t: "takeWhile P r = take n r" unfolding n_def by (rule takeWhile_eq_take)
  have "k \<notin> fst ` set (take n r)" using assms by (auto dest: in_set_takeD)
  then have a: "map_of (take n r @ (k, v) # drop n r) k' =
     (if k' = k then Some v else map_of (take n r @ drop n r) k')"
    by (rule map_of_middle)
  have b: "take n r @ drop n r = r" by simp
  have "map_of (takeWhile P r @ (k, v) # drop n r) k' = (if k' = k then Some v else map_of r k')"
    using a unfolding b t .
  then show ?thesis unfolding n_def .
qed

lemma map_of_snoc_new:
  "k \<notin> set (map fst r) \<Longrightarrow> map_of (r @ [(k, v)]) k' = (if k' = k then Some v else map_of r k')"
  using map_of_middle [of k r v "[]" k'] by simp

lemma setProp_cases:
  "setProp k v r =
     (if k \<in> set (map fst r) then AList.update k v r
      else if k = protoKey then r
      else if isIndexKey k
      then takeWhile (\<lambda>kv. isIndexKey (fst kv) \<and> natOfDigits (fst kv) < natOfDigits k) r @ (k, v) #
           drop (length (takeWhile (\<lambda>kv. isIndexKey (fst kv) \<and> natOfDigits (fst kv) < natOfDigits k) r)) r
      else r @ [(k, v)])"
  by (simp add: setProp_def Let_def)

lemma map_of_setProp:
  "map_of (setProp k v r) k' =
     (if (k \<in> set (map fst r) \<or> k \<noteq> protoKey) \<and> k' = k then Some v else map_of r k')"
proof (cases "k \<in> set (map fst r)")
  case True
  then show ?thesis by (simp add: setProp_cases update_conv')
next
  case False
  show ?thesis
  proof (cases "k = protoKey")
    case True
    then show ?thesis using False by (simp add: setProp_cases)
  next
    case np: False
    show ?thesis
    proof (cases "isIndexKey k")
      case True
      then show ?thesis
        using False np by (simp only: setProp_cases if_False if_True map_of_insert_new [OF False]) simp
    next
      case ni: False
      then show ?thesis
        using False np by (simp only: setProp_cases if_False if_True map_of_snoc_new [OF False]) simp
    qed
  qed
qed

lemma keys_insert_new:
  "set (map fst (takeWhile P r @ (k, v) # drop (length (takeWhile P r)) r)) = insert k (set (map fst r))"
proof -
  have r: "r = takeWhile P r @ drop (length (takeWhile P r)) r"
    by (metis append_take_drop_id takeWhile_eq_take)
  have "set (map fst r) = set (map fst (takeWhile P r)) \<union> set (map fst (drop (length (takeWhile P r)) r))"
    by (subst r) (simp only: map_append set_append)
  then show ?thesis by auto
qed

lemma keys_setProp:
  "set (Object_keys (setProp k v r)) =
     (if k \<in> set (Object_keys r) \<or> k \<noteq> protoKey then insert k (set (Object_keys r))
      else set (Object_keys r))"
  unfolding setProp_cases Object_keys_def
  by (simp only: keys_insert_new split: if_splits) (auto simp: update_keys)

lemma distinct_insert_new:
  "distinct (map fst r) \<Longrightarrow> k \<notin> set (map fst r) \<Longrightarrow>
   distinct (map fst (takeWhile P r @ (k, v) # drop (length (takeWhile P r)) r))"
proof -
  assume d: "distinct (map fst r)" and k: "k \<notin> set (map fst r)"
  define n where "n = length (takeWhile P r)"
  have t: "takeWhile P r = take n r" unfolding n_def by (rule takeWhile_eq_take)
  have "distinct (map fst (take n r @ drop n r))" using d by simp
  then have "distinct (map fst (take n r) @ map fst (drop n r))" by (simp only: map_append)
  moreover have "k \<notin> set (map fst (take n r))" "k \<notin> set (map fst (drop n r))"
    using k by (auto dest: in_set_takeD in_set_dropD)
  ultimately have "distinct (map fst (takeWhile P r @ (k, v) # drop n r))"
    unfolding t by auto
  then show ?thesis unfolding n_def .
qed

lemma distinct_snoc_new:
  "distinct (map fst r) \<Longrightarrow> k \<notin> set (map fst r) \<Longrightarrow> distinct (map fst (r @ [(k, v)]))"
  by simp

lemma distinct_setProp:
  "distinct (Object_keys r) \<Longrightarrow> distinct (Object_keys (setProp k v r))"
  unfolding setProp_cases Object_keys_def
  by (auto simp: distinct_insert_new distinct_snoc_new distinct_update simp del: set_map map_append)

lemma getv_setProp:
  "getv (setProp k v r) k' =
     (if (k \<in> set (Object_keys r) \<or> k \<noteq> protoKey) \<and> k' = k then v else getv r k')"
proof (cases "(k \<in> set (map fst r) \<or> k \<noteq> protoKey) \<and> k' = k")
  case True
  then have m: "map_of (setProp k v r) k' = Some v" by (auto simp: map_of_setProp)
  have eq: "(if (k \<in> set (Object_keys r) \<or> k \<noteq> protoKey) \<and> k' = k then v else getv r k') = v"
    using True by (auto simp: Object_keys_def)
  show ?thesis unfolding eq by (simp add: getv_def m)
next
  case False
  then have m: "map_of (setProp k v r) k' = map_of r k'" by (auto simp: map_of_setProp)
  have eq: "(if (k \<in> set (Object_keys r) \<or> k \<noteq> protoKey) \<and> k' = k then v else getv r k') = getv r k'"
    using False by (auto simp: Object_keys_def)
  show ?thesis unfolding eq by (simp add: getv_def m)
qed

lemma flag_setProp:
  "flag (setProp k v m) k' =
     (if (k \<in> set (Object_keys m) \<or> k \<noteq> protoKey) \<and> k' = k then v else flag m k')"
proof (cases "(k \<in> set (map fst m) \<or> k \<noteq> protoKey) \<and> k' = k")
  case True
  then have m: "map_of (setProp k v m) k' = Some v" by (auto simp: map_of_setProp)
  have eq: "(if (k \<in> set (Object_keys m) \<or> k \<noteq> protoKey) \<and> k' = k then v else flag m k') = v"
    using True by (auto simp: Object_keys_def)
  show ?thesis unfolding eq by (simp add: flag_def m)
next
  case False
  then have m: "map_of (setProp k v m) k' = map_of m k'" by (auto simp: map_of_setProp)
  have eq: "(if (k \<in> set (Object_keys m) \<or> k \<noteq> protoKey) \<and> k' = k then v else flag m k') = flag m k'"
    using False by (auto simp: Object_keys_def)
  show ?thesis unfolding eq by (simp add: flag_def m)
qed

lemma map_of_foldl_setProp:
  "map_of (foldl (\<lambda>m k. setProp k (g k) m) m0 ks) f =
     (if f \<in> set ks \<and> (f \<in> set (map fst m0) \<or> f \<noteq> protoKey) then Some (g f)
      else map_of m0 f)"
proof (induction ks arbitrary: m0)
  case Nil
  show ?case by simp
next
  case (Cons k ks)
  define A where "A = (f \<in> set (map fst m0))"
  define B where "B = (k \<in> set (map fst m0))"
  have K: "f \<in> set (map fst (setProp k (g k) m0)) \<longleftrightarrow> A \<or> (f = k \<and> k \<noteq> protoKey)"
    using keys_setProp [of k "g k" m0] unfolding A_def Object_keys_def by auto
  have M: "map_of (setProp k (g k) m0) f =
      (if (B \<or> k \<noteq> protoKey) \<and> f = k then Some (g k) else map_of m0 f)"
    unfolding B_def by (rule map_of_setProp)
  have AB: "f = k \<Longrightarrow> A = B" by (simp add: A_def B_def)
  have "map_of (foldl (\<lambda>m k. setProp k (g k) m) (setProp k (g k) m0) ks) f =
     (if (f = k \<or> f \<in> set ks) \<and> (A \<or> f \<noteq> protoKey) then Some (g f) else map_of m0 f)"
    unfolding Cons.IH K M using AB by (cases "f = k"; cases "f = protoKey"; cases A; cases B; simp)
  then show ?case unfolding A_def by simp
qed

lemma getv_foldl_setProp:
  "getv (foldl (\<lambda>r k. setProp k (g k) r) row ks) f =
     (if f \<in> set ks \<and> (f \<in> set (Object_keys row) \<or> f \<noteq> protoKey) then g f
      else getv row f)"
proof (cases "f \<in> set ks \<and> (f \<in> set (map fst row) \<or> f \<noteq> protoKey)")
  case True
  then have m: "map_of (foldl (\<lambda>r k. setProp k (g k) r) row ks) f = Some (g f)"
    by (auto simp: map_of_foldl_setProp)
  have eq: "(if f \<in> set ks \<and> (f \<in> set (Object_keys row) \<or> f \<noteq> protoKey) then g f
      else getv row f) = g f"
    using True by (auto simp: Object_keys_def)
  show ?thesis unfolding eq by (simp add: getv_def m)
next
  case False
  then have m: "map_of (foldl (\<lambda>r k. setProp k (g k) r) row ks) f = map_of row f"
    by (auto simp: map_of_foldl_setProp)
  have eq: "(if f \<in> set ks \<and> (f \<in> set (Object_keys row) \<or> f \<noteq> protoKey) then g f
      else getv row f) = getv row f"
    using False by (auto simp: Object_keys_def)
  show ?thesis unfolding eq by (simp add: getv_def m)
qed

lemma keys_foldl_setProp:
  "set (Object_keys (foldl (\<lambda>r k. setProp k (g k) r) row ks)) =
     set (Object_keys row) \<union> (set ks - {protoKey})"
  by (induction ks arbitrary: row) (auto simp: keys_setProp)

lemma distinct_foldl_setProp:
  "distinct (Object_keys row) \<Longrightarrow>
   distinct (Object_keys (foldl (\<lambda>r k. setProp k (g k) r) row ks))"
  by (induction ks arbitrary: row) (auto simp: distinct_setProp)

lemma getv_foldl_null:
  "getv (foldl (\<lambda>r k. if P k then setProp k JNull r else r) row ks) f =
     (if f \<in> set ks \<and> P f \<and> (f \<in> set (Object_keys row) \<or> f \<noteq> protoKey) then JNull
      else getv row f)"
proof (induction ks arbitrary: row)
  case Nil
  show ?case by simp
next
  case (Cons k ks)
  define A where "A = (f \<in> set (Object_keys row))"
  define B where "B = (k \<in> set (Object_keys row))"
  have AB: "f = k \<Longrightarrow> A = B" by (simp add: A_def B_def)
  show ?case
  proof (cases "P k")
    case True
    have K: "f \<in> set (Object_keys (setProp k JNull row)) \<longleftrightarrow> A \<or> (f = k \<and> k \<noteq> protoKey)"
      using keys_setProp [of k JNull row] unfolding A_def by auto
    have G: "getv (setProp k JNull row) f = (if (B \<or> k \<noteq> protoKey) \<and> f = k then JNull else getv row f)"
      unfolding B_def by (rule getv_setProp)
    have "getv (foldl (\<lambda>r k. if P k then setProp k JNull r else r) (setProp k JNull row) ks) f =
       (if (f = k \<or> f \<in> set ks) \<and> P f \<and> (A \<or> f \<noteq> protoKey) then JNull else getv row f)"
      unfolding Cons.IH K G using AB True
      by (cases "f = k"; cases "f = protoKey"; cases A; cases B; simp)
    then show ?thesis using True unfolding A_def by simp
  next
    case False
    have "getv (foldl (\<lambda>r k. if P k then setProp k JNull r else r) row ks) f =
       (if (f = k \<or> f \<in> set ks) \<and> P f \<and> (A \<or> f \<noteq> protoKey) then JNull else getv row f)"
      unfolding Cons.IH A_def using False by (cases "f = k"; simp)
    then show ?thesis using False unfolding A_def by simp
  qed
qed

section \<open>Properties of validatePairs\<close>

text \<open>
  C10. Applied to the empty pair list, validatePairs reports zero total, valid and invalid
  pairs, and a validity percentage that is NaN, the value of 0 / 0: the percentage is not
  a number between 0 and 100.
\<close>

theorem validatePairs_empty:
  "fst (validatePairs []) =
     \<lparr>totalPairs = 0, validPairs = 0, invalidPairs = 0, validPercentage = NaN\<rparr>"
  by (simp add: validatePairs_def)

lemma validatePair_foldl:
  "vs_valid (foldl validatePair s (enumerate i ps)) = vs_valid s + length (filter countedValid ps) \<and>
   vs_invalid (foldl validatePair s (enumerate i ps)) =
     vs_invalid s + length (filter (\<lambda>p. \<not> countedValid p) ps)"
proof (induction ps arbitrary: s i)
  case Nil
  show ?case by simp
next
  case (Cons p ps)
  have step: "vs_valid (validatePair s (i, p)) = vs_valid s + (if countedValid p then 1 else 0)"
    "vs_invalid (validatePair s (i, p)) = vs_invalid s + (if countedValid p then 0 else 1)"
    by (simp_all add: validatePair_def countedValid_def Let_def)
  show ?case
    using Cons.IH [of "validatePair s (i, p)" "Suc i"] step by simp
qed

lemma validatePairs_counts:
  "validPairs (fst (validatePairs ps)) = length (filter countedValid ps)"
  "invalidPairs (fst (validatePairs ps)) = length (filter (\<lambda>p. \<not> countedValid p) ps)"
  "totalPairs (fst (validatePairs ps)) = length ps"
  using validatePair_foldl [of "\<lparr>vs_valid = 0, vs_invalid = 0, vs_warnings = []\<rparr>" 0 ps]
  by (simp_all add: validatePairs_def Let_def)

section \<open>Properties of mask generation\<close>

lemma map_of_landMaskOf:
  "map_of (landMaskOf miss data keys) f =
     (if f \<in> set keys \<and> f \<noteq> protoKey then Some (list_all (\<lambda>row. miss (getv row f)) data)
      else None)"
  by (simp add: landMaskOf_def map_of_foldl_setProp)

lemma map_of_rowMask:
  "map_of (rowMask miss keys row) f =
     (if f \<in> set keys \<and> f \<noteq> protoKey then Some (miss (getv row f)) else None)"
  by (simp add: rowMask_def map_of_foldl_setProp)

lemma missingInline_eq: "missingInline = isMissing"
  by (rule ext) (auto simp: missingInline_def isMissing_def split: jsval.splits)

lemma generateMasks_array_land:
  "landMask (masks (generateMasks_array r0 rs params)) =
     Some (landMaskOf isMissing (r0 # rs) (Object_keys r0))"
  by (simp add: generateMasks_array_def Let_def)

lemma generateMasks_preprocess_land:
  "landMask (fst (generateMasks_preprocess (JArray (r0 # rs)) params)) =
     Some (landMaskOf isMissing (r0 # rs) (Object_keys r0))"
  by (simp add: generateMasks_preprocess_def Let_def missingInline_eq)

lemma fl_tenth: "fl (1 / 10) = Fin (3602879701896397 / 2 ^ 55)"
  by (subst fl_pos_eval [where e = "- 4"]) (simp_all add: fl_ev)

lemma fl_six_tenths: "fl (6 / 10) = Fin (5404319552844595 / 2 ^ 53)"
  by (subst fl_pos_eval [where e = "- 1"]) (simp_all add: fl_ev)

text \<open>
  C1 (amended). For a non-empty table, both generateMasks return a land mask over the keys of
  the first row other than \<open>__proto__\<close>: for such a key \<open>f\<close>, \<open>landMask[f]\<close> is true if
  and only if \<open>f\<close> is missing in every row, and it is false otherwise. A field that is not a
  key of the first row has no entry, and neither has \<open>__proto__\<close>, whose assignment creates
  no property. Storing a value that is not missing in such a field \<open>f\<close> of some row makes
  \<open>landMask[f]\<close> false.
\<close>

theorem landMask_first_row_keys:
  "\<exists>res lm.
     generateMasks (JArray (r0 # rs)) params = Inr res \<and>
     landMask (masks res) = Some lm \<and>
     landMask (fst (generateMasks_preprocess (JArray (r0 # rs)) params)) = Some lm \<and>
     (\<forall>f. f \<in> set (Object_keys r0) \<and> f \<noteq> ''__proto__'' \<longrightarrow>
        map_of lm f = Some (list_all (\<lambda>row. isMissing (getv row f)) (r0 # rs)) \<and>
        (map_of lm f = Some True \<longleftrightarrow> (\<forall>row \<in> set (r0 # rs). isMissing (getv row f)))) \<and>
     (\<forall>f. f \<notin> set (Object_keys r0) \<or> f = ''__proto__'' \<longrightarrow> map_of lm f = None) \<and>
     (\<forall>f i v. f \<in> set (Object_keys r0) \<and> f \<noteq> ''__proto__'' \<and> i < length (r0 # rs) \<and>
        \<not> isMissing v \<longrightarrow>
        (\<exists>res' lm'.
           generateMasks (JArray ((r0 # rs)[i := setProp f v ((r0 # rs) ! i)])) params = Inr res' \<and>
           landMask (masks res') = Some lm' \<and> map_of lm' f = Some False))"
proof -
  let ?T = "r0 # rs"
  let ?lm = "landMaskOf isMissing ?T (Object_keys r0)"
  have g: "generateMasks (JArray ?T) params = Inr (generateMasks_array r0 rs params)"
    by (simp add: generateMasks_def)
  have flip: "\<exists>res' lm'.
      generateMasks (JArray (?T[i := setProp f v (?T ! i)])) params = Inr res' \<and>
      landMask (masks res') = Some lm' \<and> map_of lm' f = Some False"
    if f: "f \<in> set (Object_keys r0)" and np: "f \<noteq> protoKey" and i: "i < length ?T"
      and v: "\<not> isMissing v" for f i v
  proof -
    let ?T' = "?T[i := setProp f v (?T ! i)]"
    have "\<exists>r0' rs'. ?T' = r0' # rs' \<and> f \<in> set (Object_keys r0')"
    proof (cases i)
      case 0
      then show ?thesis using f by (simp add: keys_setProp)
    next
      case (Suc j)
      then show ?thesis using f by simp
    qed
    then obtain r0' rs' where T': "?T' = r0' # rs'" and k: "f \<in> set (Object_keys r0')"
      by blast
    have "setProp f v (?T ! i) \<in> set ?T'" using i by (rule set_update_memI)
    moreover have "\<not> isMissing (getv (setProp f v (?T ! i)) f)"
      using v np by (simp add: getv_setProp)
    ultimately have "\<exists>row \<in> set ?T'. \<not> isMissing (getv row f)" by blast
    then have "\<not> list_all (\<lambda>row. isMissing (getv row f)) (r0' # rs')"
      unfolding T' by (simp add: list_all_iff)
    then have "map_of (landMaskOf isMissing (r0' # rs') (Object_keys r0')) f = Some False"
      using k np by (simp add: map_of_landMaskOf)
    then show ?thesis
      unfolding T' by (simp add: generateMasks_def generateMasks_array_land)
  qed
  have 1: "\<forall>f. f \<in> set (Object_keys r0) \<and> f \<noteq> ''__proto__'' \<longrightarrow>
        map_of ?lm f = Some (list_all (\<lambda>row. isMissing (getv row f)) ?T) \<and>
        (map_of ?lm f = Some True \<longleftrightarrow> (\<forall>row \<in> set ?T. isMissing (getv row f)))"
    by (simp add: map_of_landMaskOf list_all_iff protoKey_def)
  have 2: "\<forall>f. f \<notin> set (Object_keys r0) \<or> f = ''__proto__'' \<longrightarrow> map_of ?lm f = None"
    by (auto simp: map_of_landMaskOf protoKey_def)
  have 3: "\<forall>f i v. f \<in> set (Object_keys r0) \<and> f \<noteq> ''__proto__'' \<and> i < length ?T \<and>
        \<not> isMissing v \<longrightarrow>
        (\<exists>res' lm'.
           generateMasks (JArray (?T[i := setProp f v (?T ! i)])) params = Inr res' \<and>
           landMask (masks res') = Some lm' \<and> map_of lm' f = Some False)"
    using flip by (simp add: protoKey_def)
  show ?thesis
    using g generateMasks_array_land [of r0 rs params] generateMasks_preprocess_land [of r0 rs params]
      1 2 3 by blast
qed

lemmas gen_eval =
  generateMasks_def generateMasks_array_def generateMasks_preprocess_def Let_def landMaskOf_def
  Object_keys_def getv_def isMissing_def missingInline_def landPixels_def seaKeysOf_def flag_def
  rangeOf_def maskCountOf_def truthy_num_def rowRatio_def rowMask_def js_ge_def
  setProp_def protoKey_def isIndexKey_def isDigit_def inherited_def protoMembers_def
  fl_tenth fl_six_tenths

theorem landMask_first_row_keys_witness:
  "\<exists>res lm.
     generateMasks (JArray [[(''sst'', JNull), (''t'', JNumber (Fin 1))],
                            [(''sst'', JStr []), (''t'', JNumber NaN)]]) None = Inr res \<and>
     landMask (masks res) = Some lm \<and> map_of lm ''sst'' = Some True \<and> map_of lm ''t'' = Some False"
proof -
  let ?r0 = "[(''sst'', JNull), (''t'', JNumber (Fin 1))]"
  let ?rs = "[[(''sst'', JStr []), (''t'', JNumber NaN)]]"
  obtain res lm where g: "generateMasks (JArray (?r0 # ?rs)) None = Inr res"
    and l: "landMask (masks res) = Some lm"
    and c: "\<forall>f. f \<in> set (Object_keys ?r0) \<and> f \<noteq> ''__proto__'' \<longrightarrow>
        map_of lm f = Some (list_all (\<lambda>row. isMissing (getv row f)) (?r0 # ?rs)) \<and>
        (map_of lm f = Some True \<longleftrightarrow> (\<forall>row \<in> set (?r0 # ?rs). isMissing (getv row f)))"
    using landMask_first_row_keys [of ?r0 ?rs None]
    by (elim exE conjE) (rule that, assumption+)
  have "map_of lm ''sst'' = Some True" using c [rule_format, of "''sst''"]
    by (simp add: Object_keys_def getv_def isMissing_def)
  moreover have "map_of lm ''t'' = Some False" using c [rule_format, of "''t''"]
    by (simp add: Object_keys_def getv_def isMissing_def)
  ultimately show ?thesis using g l by blast
qed

text \<open>
  C1 as stated fails for a field that is not a key of the first row: in the table
  \<open>[{a: 1}, {a: 2, b: null}]\<close> the field \<open>b\<close> is missing in every row (\<open>undefined\<close> in the
  first, \<open>null\<close> in the second), and the land mask has no entry for it.
\<close>

theorem landMask_later_field_counterexample:
  "isMissing (getv [(''a'', JNumber (Fin 1))] ''b'') \<and>
   isMissing (getv [(''a'', JNumber (Fin 2)), (''b'', JNull)] ''b'') \<and>
   generateMasks (JArray [[(''a'', JNumber (Fin 1))], [(''a'', JNumber (Fin 2)), (''b'', JNull)]]) None =
     Inr \<lparr>masks = \<lparr>landMask = Some [(''a'', False)], cloudMasks = Some []\<rparr>,
          report = Some \<lparr>landMaskGenerated = True, landPixelCount = 0, cloudMasksGenerated = 0,
                          missingRatioRange = Some (fl (1 / 10), fl (6 / 10))\<rparr>,
          warnings = [LandMaskGenerated 0, CloudMasksGenerated 0 (fl (1 / 10)) (fl (6 / 10))]\<rparr> \<and>
   map_of [(''a'', False)] ''b'' = None"
  by (simp add: gen_eval fl_integer)

lemma generateMasks_empty_array:
  "generateMasks (JArray []) params = Inr emptyResult"
  "masks emptyResult = \<lparr>landMask = None, cloudMasks = None\<rparr>"
  "warnings emptyResult = [Message ''Data format not suitable for mask generation'']"
  by (simp_all add: generateMasks_def emptyResult_def)

lemma generateMasks_preprocess_malformed:
  "generateMasks_preprocess (JArray []) params =
     (\<lparr>landMask = None, cloudMasks = None\<rparr>,
      [Message ''Data format not suitable for mask generation. Expected array of observations.''])"
  "generateMasks_preprocess (JObject obj) params =
     (\<lparr>landMask = None, cloudMasks = None\<rparr>,
      [Message ''Data format not suitable for mask generation. Expected array of observations.''])"
  by (simp_all add: generateMasks_preprocess_def)

text \<open>
  C8. A malformed or empty input is to give an empty mask set with a warning, never an
  exception. The preprocess tool's generateMasks tests \<open>!Array.isArray(data) || data.length === 0\<close>
  and answers every such input with an empty mask set and a warning. The mask tool's
  generateMasks tests \<open>data.length === 0\<close> only: given the object \<open>{}\<close>, the parse of a JSON
  file that holds an object, it reaches \<open>Object.keys(data[0])\<close> with \<open>data[0]\<close> undefined
  and throws a TypeError.
\<close>

theorem generateMasks_object_throws:
  "generateMasks (JObject []) params = Inl TypeError \<and>
   generateMasks_preprocess (JObject []) params =
     (\<lparr>landMask = None, cloudMasks = None\<rparr>,
      [Message ''Data format not suitable for mask generation. Expected array of observations.''])"
  by (simp add: generateMasks_def generateMasks_preprocess_def getv_def inherited_def protoMembers_def)

section \<open>Properties of mask application\<close>

lemma applyLoop_Cons:
  "applyLoop cms idx (row # rest) h =
     (if idx < length cms
      then (fst (applyLoop cms (Suc idx) rest (h @ [applyMask (mask_map (cms ! idx)) (h ! row)])),
            length h #
            snd (applyLoop cms (Suc idx) rest (h @ [applyMask (mask_map (cms ! idx)) (h ! row)])))
      else (fst (applyLoop cms (Suc idx) rest h), row # snd (applyLoop cms (Suc idx) rest h)))"
  by (simp add: alloc_def case_prod_beta)

declare applyLoop.simps(2) [simp del]

lemma applyLoop_length: "length (snd (applyLoop cms idx rows h)) = length rows"
  by (induction rows arbitrary: idx h) (simp_all add: applyLoop_Cons)

lemma applyLoop_heap: "\<exists>new. fst (applyLoop cms idx rows h) = h @ new"
proof (induction rows arbitrary: idx h)
  case Nil
  show ?case by simp
next
  case (Cons row rest)
  show ?case
  proof (cases "idx < length cms")
    case True
    obtain new where "fst (applyLoop cms (Suc idx) rest (h @ [applyMask (mask_map (cms ! idx)) (h ! row)]))
        = (h @ [applyMask (mask_map (cms ! idx)) (h ! row)]) @ new"
      using Cons.IH by blast
    then show ?thesis using True by (simp add: applyLoop_Cons)
  next
    case False
    then show ?thesis using Cons.IH [of "Suc idx" h] by (simp add: applyLoop_Cons)
  qed
qed

lemma applyLoop_pass:
  "j < length rows \<Longrightarrow> length cms \<le> idx + j \<Longrightarrow> snd (applyLoop cms idx rows h) ! j = rows ! j"
proof (induction rows arbitrary: idx h j)
  case Nil
  then show ?case by simp
next
  case (Cons row rest)
  show ?case
  proof (cases j)
    case 0
    then show ?thesis using Cons.prems by (simp add: applyLoop_Cons)
  next
    case (Suc k)
    then have "snd (applyLoop cms (Suc idx) rest h') ! k = rest ! k" for h'
      using Cons.prems Cons.IH [of k "Suc idx" h'] by simp
    then show ?thesis using Suc by (simp add: applyLoop_Cons)
  qed
qed

lemma applyLoop_fresh:
  "j < length rows \<Longrightarrow> idx + j < length cms \<Longrightarrow>
     snd (applyLoop cms idx rows h) ! j = length h + j"
proof (induction rows arbitrary: idx h j)
  case Nil
  then show ?case by simp
next
  case (Cons row rest)
  have t: "idx < length cms" using Cons.prems by simp
  show ?case
  proof (cases j)
    case 0
    then show ?thesis using t by (simp add: applyLoop_Cons)
  next
    case (Suc k)
    then have "snd (applyLoop cms (Suc idx) rest h') ! k = length h' + k" for h'
      using Cons.prems Cons.IH [of k "Suc idx" h'] by simp
    from this [of "h @ [applyMask (mask_map (cms ! idx)) (h ! row)]"]
    show ?thesis using Suc t by (simp add: applyLoop_Cons)
  qed
qed

lemma applyLoop_content:
  "j < length rows \<Longrightarrow> idx + j < length cms \<Longrightarrow> rows ! j < length h \<Longrightarrow>
     fst (applyLoop cms idx rows h) ! (length h + j) =
       applyMask (mask_map (cms ! (idx + j))) (h ! (rows ! j))"
proof (induction rows arbitrary: idx h j)
  case Nil
  then show ?case by simp
next
  case (Cons row rest)
  have t: "idx < length cms" using Cons.prems by simp
  let ?h1 = "h @ [applyMask (mask_map (cms ! idx)) (h ! row)]"
  obtain new where n: "fst (applyLoop cms (Suc idx) rest ?h1) = ?h1 @ new"
    using applyLoop_heap by blast
  show ?case
  proof (cases j)
    case 0
    then show ?thesis using t n by (simp add: applyLoop_Cons nth_append)
  next
    case (Suc k)
    have "fst (applyLoop cms (Suc idx) rest ?h1) ! (length ?h1 + k) =
            applyMask (mask_map (cms ! (Suc idx + k))) (?h1 ! (rest ! k))"
      using Cons.prems Suc by (intro Cons.IH) (simp_all)
    moreover have "?h1 ! (rest ! k) = h ! (rest ! k)"
      using Cons.prems Suc by (simp add: nth_append)
    ultimately show ?thesis using Suc t by (simp add: applyLoop_Cons)
  qed
qed


lemma getv_applyMask:
  "getv (applyMask m row) f =
     (if f \<in> set (Object_keys m) \<and> flag m f \<and> (f \<in> set (Object_keys row) \<or> f \<noteq> protoKey)
      then JNull else getv row f)"
  by (simp add: applyMask_def getv_foldl_null)

lemma getv_buildInput:
  "f \<in> set (Object_keys gtRow) \<Longrightarrow> f \<noteq> protoKey \<Longrightarrow>
     getv (buildInput cm lm gtRow) f =
       (if flag cm f \<or> landFlag lm f then JNull else getv gtRow f)"
  by (simp add: buildInput_def getv_foldl_setProp)

lemma keys_buildInput:
  "set (Object_keys (buildInput cm lm gtRow)) = set (Object_keys gtRow) - {protoKey}"
  by (simp add: buildInput_def keys_foldl_setProp) (simp add: Object_keys_def)

lemma distinct_buildInput: "distinct (Object_keys (buildInput cm lm gtRow))"
  unfolding buildInput_def by (rule distinct_foldl_setProp) (simp add: Object_keys_def)

lemma pairLoop_Cons:
  "pairLoop cms lm i (gtRow # rest) h pairs =
     (if i < length cms
      then pairLoop cms lm (Suc i) rest (h @ [buildInput (mask_map (cms ! i)) lm (h ! gtRow)])
             (pairs @ [\<lparr>input = length h, groundTruth = gtRow, maskIndex = i,
                        pair_missingRatio = missingRatio (cms ! i)\<rparr>])
      else (h, pairs))"
  by (simp add: alloc_def)

declare pairLoop.simps(2) [simp del]

lemma pairLoop_heap: "\<exists>new. fst (pairLoop cms lm i gt h pairs) = h @ new"
proof (induction gt arbitrary: i h pairs)
  case Nil
  show ?case by simp
next
  case (Cons gtRow rest)
  show ?case
  proof (cases "i < length cms")
    case True
    obtain new where
      "fst (pairLoop cms lm (Suc i) rest (h @ [buildInput (mask_map (cms ! i)) lm (h ! gtRow)])
             (pairs @ [\<lparr>input = length h, groundTruth = gtRow, maskIndex = i,
                        pair_missingRatio = missingRatio (cms ! i)\<rparr>]))
        = (h @ [buildInput (mask_map (cms ! i)) lm (h ! gtRow)]) @ new"
      using Cons.IH by blast
    then show ?thesis using True by (simp add: pairLoop_Cons)
  next
    case False
    then show ?thesis by (simp add: pairLoop_Cons)
  qed
qed

lemma pairLoop_pairs:
  "snd (pairLoop cms lm i gt h pairs) =
     pairs @ map (\<lambda>j. \<lparr>input = length h + j, groundTruth = gt ! j, maskIndex = i + j,
                         pair_missingRatio = missingRatio (cms ! (i + j))\<rparr>)
               [0..<min (length gt) (length cms - i)]"
proof (induction gt arbitrary: i h pairs)
  case Nil
  show ?case by simp
next
  case (Cons gtRow rest)
  show ?case
  proof (cases "i < length cms")
    case True
    have m: "min (Suc (length rest)) (length cms - i) = Suc (min (length rest) (length cms - Suc i))"
      using True by auto
    have u: "[0..<Suc n] = 0 # map Suc [0..<n]" for n
      by (simp add: upt_conv_Cons map_Suc_upt del: upt_Suc)
    show ?thesis
      using True by (simp add: pairLoop_Cons Cons.IH m u comp_def del: upt_Suc)
  next
    case False
    then show ?thesis by (simp add: pairLoop_Cons)
  qed
qed

lemma pairLoop_content:
  "j < length gt \<Longrightarrow> i + j < length cms \<Longrightarrow> gt ! j < length h \<Longrightarrow>
     fst (pairLoop cms lm i gt h pairs) ! (length h + j) =
       buildInput (mask_map (cms ! (i + j))) lm (h ! (gt ! j))"
proof (induction gt arbitrary: i h j pairs)
  case Nil
  then show ?case by simp
next
  case (Cons gtRow rest)
  have t: "i < length cms" using Cons.prems by simp
  let ?h1 = "h @ [buildInput (mask_map (cms ! i)) lm (h ! gtRow)]"
  let ?p1 = "pairs @ [\<lparr>input = length h, groundTruth = gtRow, maskIndex = i,
                        pair_missingRatio = missingRatio (cms ! i)\<rparr>]"
  obtain new where n: "fst (pairLoop cms lm (Suc i) rest ?h1 ?p1) = ?h1 @ new"
    using pairLoop_heap by blast
  show ?case
  proof (cases j)
    case 0
    then show ?thesis using t n by (simp add: pairLoop_Cons nth_append)
  next
    case (Suc k)
    have "fst (pairLoop cms lm (Suc i) rest ?h1 ?p1) ! (length ?h1 + k) =
            buildInput (mask_map (cms ! (Suc i + k))) lm (?h1 ! (rest ! k))"
      using Cons.prems Suc by (intro Cons.IH) (simp_all)
    moreover have "?h1 ! (rest ! k) = h ! (rest ! k)"
      using Cons.prems Suc by (simp add: nth_append)
    ultimately show ?thesis using Suc t by (simp add: pairLoop_Cons)
  qed
qed

lemma applyLoop_heap_length:
  "length (fst (applyLoop cms idx rows h)) = length h + min (length rows) (length cms - idx)"
proof (induction rows arbitrary: idx h)
  case Nil
  show ?case by simp
next
  case (Cons row rest)
  show ?case
  proof (cases "idx < length cms")
    case True
    then show ?thesis by (simp add: applyLoop_Cons Cons.IH)
  next
    case False
    then show ?thesis by (simp add: applyLoop_Cons Cons.IH)
  qed
qed

lemma applyMasksToData_loop:
  "cloudMasks ms = Some cms \<Longrightarrow> cms \<noteq> [] \<Longrightarrow>
     fst (applyMasksToData h rows ms) = fst (applyLoop cms 0 rows h) \<and>
     result_data (snd (applyMasksToData h rows ms)) = snd (applyLoop cms 0 rows h)"
  by (simp add: applyMasksToData_def case_prod_beta)

lemma applyMasksToData_none:
  "cloudMaskCount ms = 0 \<Longrightarrow>
     fst (applyMasksToData h rows ms) = h \<and> result_data (snd (applyMasksToData h rows ms)) = rows"
  by (simp add: applyMasksToData_def cloudMaskCount_def split: option.splits)

lemma buildTrainingPairs_loop:
  "cloudMasks ms = Some cms \<Longrightarrow> cms \<noteq> [] \<Longrightarrow>
     fst (buildTrainingPairs h gt ms) = fst (pairLoop cms (landMask ms) 0 gt h []) \<and>
     fst (snd (buildTrainingPairs h gt ms)) = snd (pairLoop cms (landMask ms) 0 gt h [])"
  by (simp add: buildTrainingPairs_def case_prod_beta)

lemma buildTrainingPairs_none:
  "cloudMaskCount ms = 0 \<Longrightarrow>
     fst (buildTrainingPairs h gt ms) = h \<and> fst (snd (buildTrainingPairs h gt ms)) = []"
  by (simp add: buildTrainingPairs_def cloudMaskCount_def split: option.splits)

lemma applyMasksToData_cloud_only:
  assumes c: "cloudMasks ms = Some cms" and i: "i < length cms" "i < length rows"
    and v: "rows ! i < length h"
  shows "getv (fst (applyMasksToData h rows ms) ! (result_data (snd (applyMasksToData h rows ms)) ! i)) f =
           (if f \<in> set (Object_keys (mask_map (cms ! i))) \<and> flag (mask_map (cms ! i)) f \<and>
               (f \<in> set (Object_keys (h ! (rows ! i))) \<or> f \<noteq> protoKey)
            then JNull else getv (h ! (rows ! i)) f)"
proof -
  have ne: "cms \<noteq> []" using i by auto
  show ?thesis
    using applyMasksToData_loop [OF c ne, of h rows]
      applyLoop_fresh [of i rows 0 cms h] applyLoop_content [of i rows 0 cms h] i v
    by (simp add: getv_applyMask)
qed

lemma buildTrainingPairs_cloud_or_land:
  assumes c: "cloudMasks ms = Some cms" and i: "i < length cms" "i < length gt"
    and v: "gt ! i < length h" and f: "f \<in> set (Object_keys (h ! (gt ! i)))" "f \<noteq> protoKey"
  shows "getv (fst (buildTrainingPairs h gt ms) ! input (fst (snd (buildTrainingPairs h gt ms)) ! i)) f =
           (if flag (mask_map (cms ! i)) f \<or> landFlag (landMask ms) f then JNull
            else getv (h ! (gt ! i)) f)"
proof -
  have ne: "cms \<noteq> []" using i by auto
  have m: "i < min (length gt) (length cms)" using i by simp
  show ?thesis
    using buildTrainingPairs_loop [OF c ne, of h gt]
      pairLoop_content [of i gt 0 cms h "landMask ms" "[]"] i v f m
    by (simp add: pairLoop_pairs getv_buildInput del: upt_Suc)
qed

text \<open>
  C4. Mask application is to null every field that the row's cloud mask or the land mask
  flags. buildTrainingPairs does so.
  applyMasksToData, the mask application of the mask tool, reads \<open>cloudMasks\<close> only: with
  the mask set \<open>{landMask: {a: true, b: false}, cloudMasks: [{mask: {a: false, b: true}}]}\<close>
  and the row \<open>{a: 1, b: 2}\<close> it returns \<open>{a: 1, b: null}\<close>, leaving the land field \<open>a\<close>
  unmasked, where buildTrainingPairs builds the input \<open>{a: null, b: null}\<close>.
\<close>

theorem applyMasksToData_ignores_landMask:
  "applyMasksToData [[(''a'', JNumber (Fin 1)), (''b'', JNumber (Fin 2))]] [0]
     \<lparr>landMask = Some [(''a'', True), (''b'', False)],
      cloudMasks = Some [\<lparr>index = 0, missingRatio = Fin (1 / 2),
                          mask_map = [(''a'', False), (''b'', True)]\<rparr>]\<rparr> =
     ([[(''a'', JNumber (Fin 1)), (''b'', JNumber (Fin 2))],
       [(''a'', JNumber (Fin 1)), (''b'', JNull)]],
      \<lparr>result_data = [1], masksApplied = 1, apply_warnings = [AppliedMasks 1]\<rparr>) \<and>
   buildTrainingPairs [[(''a'', JNumber (Fin 1)), (''b'', JNumber (Fin 2))]] [0]
     \<lparr>landMask = Some [(''a'', True), (''b'', False)],
      cloudMasks = Some [\<lparr>index = 0, missingRatio = Fin (1 / 2),
                          mask_map = [(''a'', False), (''b'', True)]\<rparr>]\<rparr> =
     ([[(''a'', JNumber (Fin 1)), (''b'', JNumber (Fin 2))],
       [(''a'', JNull), (''b'', JNull)]],
      [\<lparr>input = 1, groundTruth = 0, maskIndex = 0, pair_missingRatio = Fin (1 / 2)\<rparr>],
      [BuiltPairs 1])"
  by (simp add: applyMasksToData_def buildTrainingPairs_def applyLoop_Cons pairLoop_Cons
      applyMask_def buildInput_def landFlag_def flag_def Object_keys_def getv_def
      setProp_def protoKey_def isIndexKey_def isDigit_def)

text \<open>
  C7. applyMasksToData returns every row whose index is at or beyond the number of cloud
  masks as the same object (passed through, not dropped), and a new object for every
  earlier row; buildTrainingPairs pairs a new input object with the original ground-truth
  object. Neither changes an object that existed before the call.
\<close>

theorem mask_application_frame:
  "(\<forall>a < length h. fst (applyMasksToData h rows ms) ! a = h ! a) \<and>
   length h \<le> length (fst (applyMasksToData h rows ms)) \<and>
   length (result_data (snd (applyMasksToData h rows ms))) = length rows \<and>
   (\<forall>i < length rows.
      (cloudMaskCount ms \<le> i \<longrightarrow> result_data (snd (applyMasksToData h rows ms)) ! i = rows ! i) \<and>
      (i < cloudMaskCount ms \<longrightarrow>
         length h \<le> result_data (snd (applyMasksToData h rows ms)) ! i \<and>
         result_data (snd (applyMasksToData h rows ms)) ! i
           < length (fst (applyMasksToData h rows ms)))) \<and>
   (\<forall>a < length h. fst (buildTrainingPairs h rows ms) ! a = h ! a) \<and>
   (\<forall>p \<in> set (fst (snd (buildTrainingPairs h rows ms))).
      length h \<le> input p \<and> groundTruth p = rows ! maskIndex p \<and> maskIndex p < length rows)"
proof (cases "cloudMaskCount ms = 0")
  case True
  show ?thesis
    using applyMasksToData_none [OF True, of h rows] buildTrainingPairs_none [OF True, of h rows] True
    by simp
next
  case False
  then obtain cms where c: "cloudMasks ms = Some cms" and ne: "cms \<noteq> []"
    and n: "cloudMaskCount ms = length cms"
    by (auto simp: cloudMaskCount_def split: option.splits)
  note a = applyMasksToData_loop [OF c ne, of h rows]
  note b = buildTrainingPairs_loop [OF c ne, of h rows]
  obtain new where hn: "fst (applyLoop cms 0 rows h) = h @ new" using applyLoop_heap by blast
  obtain new' where hn': "fst (pairLoop cms (landMask ms) 0 rows h []) = h @ new'"
    using pairLoop_heap by blast
  have old: "fst (applyLoop cms 0 rows h) ! a = h ! a" if "a < length h" for a
    using hn that by (simp add: nth_append)
  have old': "fst (pairLoop cms (landMask ms) 0 rows h []) ! a = h ! a" if "a < length h" for a
    using hn' that by (simp add: nth_append)
  have fresh: "length h \<le> snd (applyLoop cms 0 rows h) ! i \<and>
               snd (applyLoop cms 0 rows h) ! i < length (fst (applyLoop cms 0 rows h))"
    if "i < length rows" "i < length cms" for i
    using applyLoop_fresh [of i rows 0 cms h] applyLoop_heap_length [of cms 0 rows h] that
    by simp
  have pass: "snd (applyLoop cms 0 rows h) ! i = rows ! i"
    if "i < length rows" "length cms \<le> i" for i
    using applyLoop_pass [of i rows cms 0 h] that by simp
  have pairs: "length h \<le> input p \<and> groundTruth p = rows ! maskIndex p \<and> maskIndex p < length rows"
    if "p \<in> set (snd (pairLoop cms (landMask ms) 0 rows h []))" for p
    using that by (auto simp: pairLoop_pairs simp del: upt_Suc)
  show ?thesis
    unfolding a [THEN conjunct1] a [THEN conjunct2] b [THEN conjunct1] b [THEN conjunct2] n
    using old old' fresh pass pairs hn applyLoop_length [of cms 0 rows h]
    by simp
qed

theorem mask_application_frame_witness:
  "fst (applyMasksToData
          [[(''a'', JNumber (Fin 1)), (''b'', JNumber (Fin 2))],
           [(''a'', JNumber (Fin 3)), (''b'', JNumber (Fin 4))]] [0, 1]
          \<lparr>landMask = None,
           cloudMasks = Some [\<lparr>index = 0, missingRatio = Fin (1 / 2),
                               mask_map = [(''a'', False), (''b'', True)]\<rparr>]\<rparr>) ! 0 =
     [(''a'', JNumber (Fin 1)), (''b'', JNumber (Fin 2))] \<and>
   result_data (snd (applyMasksToData
          [[(''a'', JNumber (Fin 1)), (''b'', JNumber (Fin 2))],
           [(''a'', JNumber (Fin 3)), (''b'', JNumber (Fin 4))]] [0, 1]
          \<lparr>landMask = None,
           cloudMasks = Some [\<lparr>index = 0, missingRatio = Fin (1 / 2),
                               mask_map = [(''a'', False), (''b'', True)]\<rparr>]\<rparr>)) ! 1 = 1 \<and>
   2 \<le> result_data (snd (applyMasksToData
          [[(''a'', JNumber (Fin 1)), (''b'', JNumber (Fin 2))],
           [(''a'', JNumber (Fin 3)), (''b'', JNumber (Fin 4))]] [0, 1]
          \<lparr>landMask = None,
           cloudMasks = Some [\<lparr>index = 0, missingRatio = Fin (1 / 2),
                               mask_map = [(''a'', False), (''b'', True)]\<rparr>]\<rparr>)) ! 0"
proof -
  let ?h = "[[(''a'', JNumber (Fin 1)), (''b'', JNumber (Fin 2))],
             [(''a'', JNumber (Fin 3)), (''b'', JNumber (Fin 4))]]"
  let ?ms = "\<lparr>landMask = None,
              cloudMasks = Some [\<lparr>index = 0, missingRatio = Fin (1 / 2),
                                  mask_map = [(''a'', False), (''b'', True)]\<rparr>]\<rparr>"
  note t = mask_application_frame [of ?h "[0, 1]" ?ms]
  have n: "cloudMaskCount ?ms = 1" by (simp add: cloudMaskCount_def)
  have 1: "fst (applyMasksToData ?h [0, 1] ?ms) ! 0 = ?h ! 0"
    using t [THEN conjunct1, rule_format, of 0] by simp
  have 2: "result_data (snd (applyMasksToData ?h [0, 1] ?ms)) ! 1 = [0, 1] ! 1"
    using t [THEN conjunct2, THEN conjunct2, THEN conjunct2, THEN conjunct1, rule_format, of 1] n
    by simp
  have 3: "length ?h \<le> result_data (snd (applyMasksToData ?h [0, 1] ?ms)) ! 0"
    using t [THEN conjunct2, THEN conjunct2, THEN conjunct2, THEN conjunct1, rule_format, of 0] n
    by simp
  show ?thesis using 1 2 3 by simp
qed

lemma builtShape_counted:
  assumes "builtShape p"
  shows "countedValid p \<longleftrightarrow> validBySpec p"
proof -
  let ?i = "Object_keys (input p)" and ?g = "Object_keys (groundTruth p)"
  have d: "distinct ?i" "distinct ?g" and sub: "set ?i \<subseteq> set ?g"
    using assms by (simp_all add: builtShape_def)
  have "length ?i = length ?g \<longleftrightarrow> set ?i = set ?g"
  proof
    assume "length ?i = length ?g"
    then have "card (set ?i) = card (set ?g)" using d by (simp add: distinct_card)
    then show "set ?i = set ?g" using sub by (simp add: card_subset_eq)
  next
    assume "set ?i = set ?g"
    then have "card (set ?i) = card (set ?g)" by simp
    then show "length ?i = length ?g" using d by (simp add: distinct_card)
  qed
  then show ?thesis
    by (simp add: countedValid_def validBySpec_def hasMaskedValues_def list_ex_iff)
qed

lemma builtShape_filter:
  "list_all builtShape ps \<Longrightarrow>
   filter countedValid ps = filter validBySpec ps \<and>
   filter (\<lambda>p. \<not> countedValid p) ps = filter (\<lambda>p. \<not> validBySpec p) ps"
  by (induction ps) (simp_all add: builtShape_counted)

lemma validatePairs_report:
  "fst (validatePairs ps) =
     \<lparr>totalPairs = length ps,
      validPairs = length (filter countedValid ps),
      invalidPairs = length (filter (\<lambda>p. \<not> countedValid p) ps),
      validPercentage =
        toFixedNumber 2
          (js_mul (js_div (Fin (real (length (filter countedValid ps)))) (Fin (real (length ps))))
             (Fin 100))\<rparr>"
  using validatePair_foldl [of "\<lparr>vs_valid = 0, vs_invalid = 0, vs_warnings = []\<rparr>" 0 ps]
  by (simp add: validatePairs_def Let_def)

lemma buildTrainingPairs_shape:
  assumes "\<forall>a \<in> set gt. a < length h \<and> distinct (Object_keys (h ! a))"
  shows "list_all builtShape
           (map (derefPair (fst (buildTrainingPairs h gt ms))) (fst (snd (buildTrainingPairs h gt ms))))"
proof (cases "cloudMaskCount ms = 0")
  case True
  then show ?thesis using buildTrainingPairs_none [OF True, of h gt] by simp
next
  case False
  then obtain cms where c: "cloudMasks ms = Some cms" and ne: "cms \<noteq> []"
    by (auto simp: cloudMaskCount_def split: option.splits)
  note b = buildTrainingPairs_loop [OF c ne, of h gt]
  let ?h' = "fst (pairLoop cms (landMask ms) 0 gt h [])"
  obtain new where hn: "?h' = h @ new" using pairLoop_heap by blast
  have shape: "builtShape (derefPair ?h'
        \<lparr>input = length h + j, groundTruth = gt ! j, maskIndex = 0 + j,
         pair_missingRatio = missingRatio (cms ! (0 + j))\<rparr>)"
    if j: "j < min (length gt) (length cms - 0)" for j
  proof -
    have jg: "j < length gt" "0 + j < length cms" using j by simp_all
    have g: "gt ! j < length h" "distinct (Object_keys (h ! (gt ! j)))"
      using assms jg(1) by (simp_all add: nth_mem)
    have i: "?h' ! (length h + j) = buildInput (mask_map (cms ! (0 + j))) (landMask ms) (h ! (gt ! j))"
      using jg g(1) by (rule pairLoop_content)
    have o: "?h' ! (gt ! j) = h ! (gt ! j)" using g(1) hn by (simp add: nth_append)
    show ?thesis
      using g(2) by (simp add: builtShape_def derefPair_def i o keys_buildInput distinct_buildInput)
  qed
  show ?thesis
    unfolding b [THEN conjunct1] b [THEN conjunct2] pairLoop_pairs
    using shape by (simp add: list_all_iff del: upt_Suc)
qed

text \<open>
  C6. validatePairs counts a pair as valid if and only if the key sets of its input and its
  ground truth are equal and some field of the input is null where the ground truth is
  not, and it reports the number of valid pairs, the number of invalid pairs and the
  validity percentage. The loop compares the numbers of keys; on the pairs it is given,
  those built by buildTrainingPairs, every key of the input is a key of the ground truth,
  so that equal numbers of keys are equal key sets.
\<close>

theorem validatePairs_valid_pairs:
  "(list_all builtShape ps \<longrightarrow>
      fst (validatePairs ps) =
        \<lparr>totalPairs = length ps,
         validPairs = length (filter validBySpec ps),
         invalidPairs = length (filter (\<lambda>p. \<not> validBySpec p) ps),
         validPercentage =
           toFixedNumber 2
             (js_mul (js_div (Fin (real (length (filter validBySpec ps)))) (Fin (real (length ps))))
                (Fin 100))\<rparr>) \<and>
   ((\<forall>a \<in> set gt. a < length h \<and> distinct (Object_keys (h ! a))) \<longrightarrow>
      list_all builtShape
        (map (derefPair (fst (buildTrainingPairs h gt ms))) (fst (snd (buildTrainingPairs h gt ms)))))"
  using builtShape_filter [of ps] buildTrainingPairs_shape [of gt h ms]
  by (simp add: validatePairs_report)

theorem validatePairs_valid_pairs_witness:
  "fst (validatePairs
     [\<lparr>input = [(''a'', JNull), (''b'', JNumber (Fin 2))],
       groundTruth = [(''a'', JNumber (Fin 1)), (''b'', JNumber (Fin 2))],
       maskIndex = 0, pair_missingRatio = Fin (1 / 2)\<rparr>,
      \<lparr>input = [(''a'', JNumber (Fin 3))], groundTruth = [(''a'', JNumber (Fin 3))],
       maskIndex = 1, pair_missingRatio = Fin 0\<rparr>]) =
     \<lparr>totalPairs = 2, validPairs = 1, invalidPairs = 1, validPercentage = Fin 50\<rparr> \<and>
   list_all builtShape
     (map (derefPair (fst (buildTrainingPairs
             [[(''a'', JNumber (Fin 1)), (''b'', JNumber (Fin 2))]] [0]
             \<lparr>landMask = None,
              cloudMasks = Some [\<lparr>index = 0, missingRatio = Fin (1 / 2),
                                  mask_map = [(''a'', True), (''b'', False)]\<rparr>]\<rparr>)))
        (fst (snd (buildTrainingPairs
             [[(''a'', JNumber (Fin 1)), (''b'', JNumber (Fin 2))]] [0]
             \<lparr>landMask = None,
              cloudMasks = Some [\<lparr>index = 0, missingRatio = Fin (1 / 2),
                                  mask_map = [(''a'', True), (''b'', False)]\<rparr>]\<rparr>))))"
proof -
  let ?ps = "[\<lparr>input = [(''a'', JNull), (''b'', JNumber (Fin 2))],
       groundTruth = [(''a'', JNumber (Fin 1)), (''b'', JNumber (Fin 2))],
       maskIndex = 0, pair_missingRatio = Fin (1 / 2)\<rparr>,
      \<lparr>input = [(''a'', JNumber (Fin 3))], groundTruth = [(''a'', JNumber (Fin 3))],
       maskIndex = 1, pair_missingRatio = Fin 0\<rparr>]"
  let ?h = "[[(''a'', JNumber (Fin 1)), (''b'', JNumber (Fin 2))]]"
  let ?ms = "\<lparr>landMask = None,
              cloudMasks = Some [\<lparr>index = 0, missingRatio = Fin (1 / 2),
                                  mask_map = [(''a'', True), (''b'', False)]\<rparr>]\<rparr>"
  note t = validatePairs_valid_pairs [of ?ps "[0]" ?h ?ms]
  have s: "list_all builtShape ?ps" by (simp add: builtShape_def Object_keys_def)
  have g: "\<forall>a \<in> set [0]. a < length ?h \<and> distinct (Object_keys (?h ! a))"
    by (simp add: Object_keys_def)
  have v: "filter validBySpec ?ps = [?ps ! 0]" "filter (\<lambda>p. \<not> validBySpec p) ?ps = [?ps ! 1]"
    by (simp_all add: validBySpec_def Object_keys_def getv_def)
  have p: "toFixedNumber 2 (js_mul (js_div (Fin (real (Suc 0))) (Fin (real (Suc (Suc 0))))) (Fin 100)) = Fin 50"
    by (simp add: fl_half roundFixed_def fl_integer)
  have 1: "fst (validatePairs ?ps) =
      \<lparr>totalPairs = 2, validPairs = 1, invalidPairs = 1, validPercentage = Fin 50\<rparr>"
    using t [THEN conjunct1, rule_format, OF s] unfolding v by (simp add: fl_half roundFixed_def fl_integer)
  show ?thesis
    using 1 t [THEN conjunct2, THEN mp, OF g] by simp
qed

end
